theory Spec2Isabelle
  imports Main "HOL-Library.Sublist" "HOL-Library.AList" "HOL-Library.DAList"
begin

section \<open>Errors and panics\<close>

text \<open>
  Go functions return an error next to their value; the model keeps that shape: a function
  of the repository returns a pair whose second component is \<open>None\<close> for a nil error.
  The errors the repository creates itself have their own constructors; errors that come
  out of a library are opaque and carry the library's message.
\<close>

datatype error =
    OSError string
  | ErrExist string
  | ErrBadPattern
  | YamlError string
  | TemplateError string
  | ErrNoGroupsFound
  | ErrUnableToExpand string

text \<open>A run-time panic aborts the call; it is the \<open>Inl\<close> side of a sum.\<close>

datatype panic = SliceBoundsOutOfRange | NilMapAssignment

section \<open>Library functions used by the loader\<close>

text \<open>
  \<open>filepath.Base\<close> (Unix): the last element of the path. Trailing slashes are removed
  first; the empty path gives \<open>"."\<close>, a path of slashes only gives \<open>"/"\<close>.
\<close>

definition stripTrailingSlashes :: "string \<Rightarrow> string" where
  "stripTrailingSlashes path = rev (dropWhile (\<lambda>c. c = CHR ''/'') (rev path))"

definition lastElement :: "string \<Rightarrow> string" where
  "lastElement path = rev (takeWhile (\<lambda>c. c \<noteq> CHR ''/'') (rev path))"

definition filepath_Base :: "string \<Rightarrow> string" where
  "filepath_Base path =
     (if path = [] then ''.''
      else let elem = lastElement (stripTrailingSlashes path)
           in if elem = [] then ''/'' else elem)"

text \<open>
  \<open>strings.ReplaceAll(s, old, new)\<close>: the non-overlapping occurrences of \<open>old\<close> are
  replaced from the left. For an empty \<open>old\<close> Go inserts \<open>new\<close> before every
  character and at the end (the model does so per byte, which is Go's behaviour on ASCII
  text).
\<close>

function strings_ReplaceAll :: "string \<Rightarrow> string \<Rightarrow> string \<Rightarrow> string" where
  "strings_ReplaceAll [] old new = (if old = [] then new else [])"
| "strings_ReplaceAll (c # s) old new =
     (if old = [] then new @ c # strings_ReplaceAll s old new
      else if prefix old (c # s)
        then new @ strings_ReplaceAll (drop (length old) (c # s)) old new
      else c # strings_ReplaceAll s old new)"
  by pat_completeness auto
termination
  by (relation "measure (\<lambda>(s, old, new). length s)") auto

section \<open>Package cfgloader: the rule model\<close>

text \<open>The intermediate types of package \<open>rulefmt\<close>, as the YAML decoder fills them.\<close>

record rulefmt_Rule =
  rulefmt_Record :: string
  rulefmt_Alert :: string
  rulefmt_Expr :: string
  rulefmt_For :: string
  rulefmt_Labels :: "(string \<times> string) list"
  rulefmt_Annotations :: "(string \<times> string) list"

record rulefmt_RuleGroup =
  rulefmt_Name :: string
  rulefmt_Interval :: string
  rulefmt_Rules :: "rulefmt_Rule list"

record rulefmt_RuleGroups =
  rulefmt_Groups :: "rulefmt_RuleGroup list"

text \<open>The types of the prometheus-operator API (package \<open>v1\<close>) that the loader builds.\<close>

datatype IntOrString = FromInt int | FromString string

record Rule =
  Record :: string
  Alert :: string
  Expr :: IntOrString
  For :: string
  Labels :: "(string \<times> string) list"
  Annotations :: "(string \<times> string) list"

record RuleGroup =
  Name :: string
  Interval :: string
  Rules :: "Rule list"

record PrometheusRuleSpec =
  Groups :: "RuleGroup list"

record PrometheusRule =
  ObjectNamespace :: string
  ObjectName :: string
  ObjectLabels :: "(string \<times> string) list"
  Spec :: PrometheusRuleSpec

record PrometheusRuleList =
  Items :: "PrometheusRule option list"

section \<open>Package cfgloader: the loader\<close>

text \<open>
  \<open>buildRuleName\<close>: the slice \<open>base[:len(base)-5]\<close> panics when the base name has
  fewer than five bytes; \<open>fmt.Sprintf("%s-%s-rules", ...)\<close> is concatenation.
\<close>

definition buildRuleName :: "string \<Rightarrow> string \<Rightarrow> panic + string" where
  "buildRuleName fileName prometheus =
     (let base = filepath_Base fileName in
      if length base < 5 then Inl SliceBoundsOutOfRange
      else let base = strings_ReplaceAll (take (length base - 5) base) ''.'' ''-''
           in Inr (prometheus @ ''-'' @ base @ ''-rules''))"

text \<open>
  \<open>ParseRuleSpec\<close>. The YAML decoder is a library: it is the parameter \<open>unmarshal\<close>,
  which gives the decoded \<open>rulefmt.RuleGroups\<close> and the decoder's error. The two nested
  loops append one converted group per group and one converted rule per rule.
\<close>

definition convertRule :: "rulefmt_Rule \<Rightarrow> Rule" where
  "convertRule r =
     \<lparr>Record = rulefmt_Record r,
      Alert = rulefmt_Alert r,
      Expr = FromString (rulefmt_Expr r),
      For = rulefmt_For r,
      Labels = rulefmt_Labels r,
      Annotations = rulefmt_Annotations r\<rparr>"

definition convertGroup :: "rulefmt_RuleGroup \<Rightarrow> RuleGroup" where
  "convertGroup g =
     \<lparr>Name = rulefmt_Name g,
      Interval = rulefmt_Interval g,
      Rules = map convertRule (rulefmt_Rules g)\<rparr>"

definition ParseRuleSpec ::
  "('d \<Rightarrow> rulefmt_RuleGroups \<times> error option) \<Rightarrow> 'd \<Rightarrow> PrometheusRuleSpec \<times> error option" where
  "ParseRuleSpec unmarshal data =
     (let rv = \<lparr>Groups = []\<rparr> in
      case unmarshal data of
        (intermediate, Some err) \<Rightarrow> (rv, Some err)
      | (intermediate, None) \<Rightarrow>
          if length (rulefmt_Groups intermediate) = 0 then (rv, Some ErrNoGroupsFound)
          else (\<lparr>Groups = map convertGroup (rulefmt_Groups intermediate)\<rparr>, None))"

text \<open>
  The file system the loader reads: for every path what \<open>os.Open\<close> followed by
  \<open>ioutil.ReadAll\<close> gives. A path that is not listed does not exist.
\<close>

datatype 'd osfile = OpenFails error | ReadFails error | Contents 'd

type_synonym 'd filesystem = "(string \<times> 'd osfile) list"

definition os_Open :: "'d filesystem \<Rightarrow> string \<Rightarrow> 'd osfile" where
  "os_Open fs name =
     (case map_of fs name of
        None \<Rightarrow> OpenFails (OSError (''open '' @ name @ '': no such file or directory''))
      | Some f \<Rightarrow> f)"

definition LoadConfigurationFile ::
  "'d filesystem \<Rightarrow> ('d \<Rightarrow> rulefmt_RuleGroups \<times> error option) \<Rightarrow> string \<Rightarrow> string \<Rightarrow> string
     \<Rightarrow> panic + (PrometheusRule option \<times> error option)" where
  "LoadConfigurationFile fs unmarshal name namespace prometheus =
     (case os_Open fs name of
        OpenFails err \<Rightarrow> Inr (None, Some err)
      | ReadFails err \<Rightarrow> Inr (None, Some err)
      | Contents data \<Rightarrow>
          (case ParseRuleSpec unmarshal data of
             (spec, Some err) \<Rightarrow> Inr (None, Some err)
           | (spec, None) \<Rightarrow>
               (case buildRuleName name prometheus of
                  Inl p \<Rightarrow> Inl p
                | Inr ruleName \<Rightarrow>
                    Inr (Some \<lparr>ObjectNamespace = namespace,
                               ObjectName = ruleName,
                               ObjectLabels = [(''prometheus'', prometheus),
                                               (''role'', ''prometheus-rulefiles'')],
                               Spec = spec\<rparr>, None))))"

text \<open>
  The loop of \<open>LoadConfigurationDirectory\<close> over the globbed names: a failed file only
  overwrites \<open>errSeen\<close>, a loaded one is appended to the items.
\<close>

fun loadFiles ::
  "'d filesystem \<Rightarrow> ('d \<Rightarrow> rulefmt_RuleGroups \<times> error option) \<Rightarrow> string \<Rightarrow> string
     \<Rightarrow> string list \<Rightarrow> PrometheusRule option list \<Rightarrow> error option
     \<Rightarrow> panic + (PrometheusRule option list \<times> error option)" where
  "loadFiles fs unmarshal namespace prometheus [] items errSeen = Inr (items, errSeen)"
| "loadFiles fs unmarshal namespace prometheus (name # names) items errSeen =
     (case LoadConfigurationFile fs unmarshal name namespace prometheus of
        Inl p \<Rightarrow> Inl p
      | Inr (rule, Some err) \<Rightarrow>
          loadFiles fs unmarshal namespace prometheus names items (Some err)
      | Inr (rule, None) \<Rightarrow>
          loadFiles fs unmarshal namespace prometheus names (items @ [rule]) errSeen)"

text \<open>
  \<open>LoadConfigurationDirectory\<close>. \<open>glob\<close> is what
  \<open>filepath.Glob(filepath.Join(directory, "*.yaml"))\<close> returns: an error, or the
  matching paths in the order of the scan (\<open>[]\<close> is Go's nil slice, no match).
\<close>

definition LoadConfigurationDirectory ::
  "(string \<Rightarrow> error + string list) \<Rightarrow> 'd filesystem
     \<Rightarrow> ('d \<Rightarrow> rulefmt_RuleGroups \<times> error option) \<Rightarrow> string \<Rightarrow> string \<Rightarrow> string
     \<Rightarrow> panic + (PrometheusRuleList option \<times> error option)" where
  "LoadConfigurationDirectory glob fs unmarshal directory namespace prometheus =
     (case glob directory of
        Inl err \<Rightarrow> Inr (None, Some err)
      | Inr names \<Rightarrow>
          if names = [] then Inr (None, Some (ErrUnableToExpand directory))
          else (case loadFiles fs unmarshal namespace prometheus names [] None of
                  Inl p \<Rightarrow> Inl p
                | Inr (items, errSeen) \<Rightarrow> Inr (Some \<lparr>Items = items\<rparr>, errSeen)))"

subsection \<open>Per-file outcomes and example inputs\<close>

text \<open>
  What \<open>LoadConfigurationFile\<close> returns for one file of the scan: its document and its
  error. These name the per-file outcomes in the statements about the directory scan.
\<close>

definition fileRule ::
  "'d filesystem \<Rightarrow> ('d \<Rightarrow> rulefmt_RuleGroups \<times> error option) \<Rightarrow> string \<Rightarrow> string \<Rightarrow> string
     \<Rightarrow> PrometheusRule option" where
  "fileRule fs unmarshal namespace prometheus name =
     (case LoadConfigurationFile fs unmarshal name namespace prometheus of
        Inr (rule, err) \<Rightarrow> rule
      | Inl p \<Rightarrow> None)"

definition fileError ::
  "'d filesystem \<Rightarrow> ('d \<Rightarrow> rulefmt_RuleGroups \<times> error option) \<Rightarrow> string \<Rightarrow> string \<Rightarrow> string
     \<Rightarrow> error option" where
  "fileError fs unmarshal namespace prometheus name =
     (case LoadConfigurationFile fs unmarshal name namespace prometheus of
        Inr (rule, err) \<Rightarrow> err
      | Inl p \<Rightarrow> None)"

text \<open>
  A rule whose kind is ambiguous: \<open>record\<close> and \<open>alert\<close> both set, or neither
  (an unset YAML field decodes to the empty string).
\<close>

definition ambiguousKind :: "rulefmt_Rule \<Rightarrow> bool" where
  "ambiguousKind r =
     ((rulefmt_Record r \<noteq> [] \<and> rulefmt_Alert r \<noteq> []) \<or>
      (rulefmt_Record r = [] \<and> rulefmt_Alert r = []))"

text \<open>
  Example inputs. The content of a file is given by what the decoder makes of it, so the
  decoder of the examples is the identity.
\<close>

definition recordRule :: rulefmt_Rule where
  "recordRule =
     \<lparr>rulefmt_Record = ''job:up:sum'', rulefmt_Alert = '''', rulefmt_Expr = ''sum(up)'',
      rulefmt_For = '''', rulefmt_Labels = [], rulefmt_Annotations = []\<rparr>"

definition bothRule :: rulefmt_Rule where
  "bothRule =
     \<lparr>rulefmt_Record = ''job:up:sum'', rulefmt_Alert = ''Down'', rulefmt_Expr = ''up == 0'',
      rulefmt_For = ''5m'', rulefmt_Labels = [], rulefmt_Annotations = []\<rparr>"

definition neitherRule :: rulefmt_Rule where
  "neitherRule =
     \<lparr>rulefmt_Record = '''', rulefmt_Alert = '''', rulefmt_Expr = ''up'',
      rulefmt_For = '''', rulefmt_Labels = [], rulefmt_Annotations = []\<rparr>"

definition goodContent :: "rulefmt_RuleGroups \<times> error option" where
  "goodContent =
     (\<lparr>rulefmt_Groups =
         [\<lparr>rulefmt_Name = ''g'', rulefmt_Interval = '''', rulefmt_Rules = [recordRule]\<rparr>]\<rparr>,
      None)"

definition ambiguousContent :: "rulefmt_RuleGroups \<times> error option" where
  "ambiguousContent =
     (\<lparr>rulefmt_Groups =
         [\<lparr>rulefmt_Name = ''g'', rulefmt_Interval = '''',
           rulefmt_Rules = [bothRule, neitherRule]\<rparr>]\<rparr>,
      None)"

definition malformedContent :: "rulefmt_RuleGroups \<times> error option" where
  "malformedContent = (\<lparr>rulefmt_Groups = []\<rparr>, Some (YamlError ''yaml: line 1: did not find expected key''))"

definition emptyContent :: "rulefmt_RuleGroups \<times> error option" where
  "emptyContent = (\<lparr>rulefmt_Groups = []\<rparr>, None)"

definition exampleNames :: "string list" where
  "exampleNames = [''/out/a.yaml'', ''/out/b.yaml'', ''/out/c.yaml'', ''/out/d.yaml'']"

definition exampleGlob :: "string \<Rightarrow> error + string list" where
  "exampleGlob directory = (if directory = ''/out'' then Inr exampleNames else Inr [])"

definition exampleFiles :: "(rulefmt_RuleGroups \<times> error option) filesystem" where
  "exampleFiles =
     [(''/out/a.yaml'', Contents goodContent),
      (''/out/b.yaml'', Contents malformedContent),
      (''/out/c.yaml'', Contents ambiguousContent),
      (''/out/d.yaml'', Contents emptyContent)]"

section \<open>Package templates: variables\<close>

text \<open>
  A Go map is a reference to a table with unique keys. The tables live in a store, a list
  indexed by reference; \<open>make\<close> appends an empty table and returns its index. A table is
  an association list with distinct keys; its order stands for the order in which a
  \<open>range\<close> loop happens to visit it.
\<close>

type_synonym gomap = "(string, string) alist"

type_synonym ref = nat

type_synonym heap = "gomap list"

text \<open>\<open>type Values struct { Values map[string]string }\<close>; \<open>None\<close> is the nil map.\<close>

record Values =
  Values :: "ref option"

definition make_map :: "heap \<Rightarrow> heap \<times> ref" where
  "make_map h = (h @ [DAList.empty], length h)"

text \<open>\<open>m[key] = val\<close> on a map that is not nil.\<close>

definition map_assign :: "heap \<Rightarrow> ref \<Rightarrow> string \<Rightarrow> string \<Rightarrow> heap" where
  "map_assign h m key val = h[m := DAList.update key val (h ! m)]"

text \<open>The entries a \<open>range\<close> loop visits; a nil map has none.\<close>

definition map_range :: "heap \<Rightarrow> ref option \<Rightarrow> (string \<times> string) list" where
  "map_range h m = (case m of None \<Rightarrow> [] | Some r \<Rightarrow> DAList.impl_of (h ! r))"

text \<open>\<open>m[key]\<close> with the \<open>ok\<close> flag; reading a nil map finds nothing.\<close>

definition map_index :: "heap \<Rightarrow> ref option \<Rightarrow> string \<Rightarrow> string option" where
  "map_index h m key = (case m of None \<Rightarrow> None | Some r \<Rightarrow> DAList.lookup (h ! r) key)"

text \<open>A map value is allocated when it is nil or refers to a table of the store.\<close>

definition allocated :: "heap \<Rightarrow> ref option \<Rightarrow> bool" where
  "allocated h m = (case m of None \<Rightarrow> True | Some r \<Rightarrow> r < length h)"

text \<open>The loop \<open>for key, val := range entries { rv.Values[key] = val }\<close>.\<close>

fun assignAll :: "heap \<Rightarrow> ref \<Rightarrow> (string \<times> string) list \<Rightarrow> heap" where
  "assignAll h m [] = h"
| "assignAll h m ((key, val) # entries) = assignAll (map_assign h m key val) m entries"

definition mergeValues :: "heap \<Rightarrow> Values \<Rightarrow> Values \<Rightarrow> heap \<times> Values" where
  "mergeValues h first second =
     (let (h, m) = make_map h;
          rv = \<lparr>Values = Some m\<rparr>;
          h = assignAll h m (map_range h (Values first));
          h = assignAll h m (map_range h (Values second))
      in (h, rv))"

text \<open>
  \<open>strings.Index(s, substr)\<close>: the index of the first occurrence of \<open>substr\<close> in
  \<open>s\<close>, or \<open>-1\<close>.
\<close>

fun strings_Index :: "string \<Rightarrow> string \<Rightarrow> int" where
  "strings_Index [] substr = (if substr = [] then 0 else -1)"
| "strings_Index (c # s) substr =
     (if prefix substr (c # s) then 0
      else let i = strings_Index s substr in if i < 0 then -1 else i + 1)"

text \<open>
  \<open>parseValues\<close>. The YAML decoder is the parameter \<open>unmarshal\<close>: the key/value pairs
  it stores into the map it is given, in the order it stores them, and its error. On an
  error the function returns the empty struct \<open>Values{}\<close>, whose map is nil.
\<close>

definition parseValues ::
  "('d \<Rightarrow> (string \<times> string) list \<times> error option) \<Rightarrow> heap \<Rightarrow> string \<Rightarrow> 'd
     \<Rightarrow> heap \<times> string \<times> Values \<times> error option" where
  "parseValues unmarshal h name data =
     (let name = filepath_Base name;
          extStart = strings_Index name ''.vars'';
          name = (if extStart \<ge> 0 then take (nat extStart) name else name);
          (h, m) = make_map h;
          rv = \<lparr>Values = Some m\<rparr>;
          (entries, err) = unmarshal data;
          h = assignAll h m entries
      in case err of
           Some e \<Rightarrow> (h, name, \<lparr>Values = None\<rparr>, Some e)
         | None \<Rightarrow> (h, name, rv, None))"

definition readValues ::
  "'d filesystem \<Rightarrow> ('d \<Rightarrow> (string \<times> string) list \<times> error option) \<Rightarrow> heap \<Rightarrow> string
     \<Rightarrow> heap \<times> string \<times> Values \<times> error option" where
  "readValues fs unmarshal h name =
     (case os_Open fs name of
        OpenFails err \<Rightarrow> (h, '''', \<lparr>Values = None\<rparr>, Some err)
      | ReadFails err \<Rightarrow> (h, '''', \<lparr>Values = None\<rparr>, Some err)
      | Contents data \<Rightarrow> parseValues unmarshal h name data)"

section \<open>Package templates: template sets and expansion\<close>

record TemplateData =
  Context :: string
  Directory :: string
  Files :: "string list"

text \<open>
  \<open>internalTemplate\<close>. Its two maps are filled while the struct is built and only read
  afterwards; they are tables with unique keys. \<open>'t\<close> is a parsed template.
\<close>

record 't internalTemplate =
  variables :: "(string, Values) alist"
  templates :: "(string, 't) alist"
  sourceDir :: string

type_synonym ExpansionData = "(string, TemplateData) alist"

text \<open>
  The part of the file system that expansion changes: the paths that exist, and the number
  of random names drawn so far. What is written into a file is not recorded.
\<close>

record world =
  present :: "string list"
  randoms :: nat

text \<open>
  What the package takes from its libraries and from the machine. The source directory is
  only read: \<open>Glob\<close> and \<open>sourceFiles\<close> do not change during a run. \<open>Unmarshal\<close> is the YAML
  decoder on a string map, \<open>ParseFiles\<close> is
  \<open>template.New(base).Delims(left, right).ParseFiles(name)\<close>, \<open>Execute\<close> tells whether
  rendering a template with the given variables fails. \<open>refused\<close> tells where the operating
  system refuses to create a file or directory in a given state, for whatever reason;
  \<open>nextRandom\<close> numbers the random names \<open>ioutil.TempDir\<close> draws.
  \<open>DefaultTempDirectory\<close> is the package variable of that name.
\<close>

record ('d, 't) env =
  Join :: "string list \<Rightarrow> string"
  Glob :: "string \<Rightarrow> error + string list"
  sourceFiles :: "'d filesystem"
  Unmarshal :: "'d \<Rightarrow> (string \<times> string) list \<times> error option"
  ParseFiles :: "string \<Rightarrow> string \<Rightarrow> string \<Rightarrow> string \<Rightarrow> error + 't"
  Execute :: "'t \<Rightarrow> (string \<Rightarrow> string option) \<Rightarrow> error option"
  refused :: "world \<Rightarrow> string \<Rightarrow> bool"
  nextRandom :: "nat \<Rightarrow> string"
  os_TempDir :: string
  DefaultTempDirectory :: string

subsection \<open>createInternalTemplate\<close>

text \<open>The loop over the \<open>*.vars\<close> files.\<close>

fun readAllValues ::
  "('d, 't) env \<Rightarrow> string list \<Rightarrow> heap \<Rightarrow> 't internalTemplate
     \<Rightarrow> heap \<times> 't internalTemplate \<times> error option" where
  "readAllValues env [] h rv = (h, rv, None)"
| "readAllValues env (name # names) h rv =
     (case readValues (sourceFiles env) (Unmarshal env) h name of
        (h, context, values, Some err) \<Rightarrow> (h, rv, Some err)
      | (h, context, values, None) \<Rightarrow>
          readAllValues env names h
            (rv\<lparr>variables := DAList.update context values (variables rv)\<rparr>))"

text \<open>The loop over the \<open>*.yaml\<close> files.\<close>

fun parseAllTemplates ::
  "('d, 't) env \<Rightarrow> string list \<Rightarrow> 't internalTemplate \<Rightarrow> 't internalTemplate \<times> error option" where
  "parseAllTemplates env [] rv = (rv, None)"
| "parseAllTemplates env (name # names) rv =
     (let base = filepath_Base name in
      case ParseFiles env base ''<{['' '']}>'' name of
        Inl err \<Rightarrow> (rv, Some err)
      | Inr tmpl \<Rightarrow>
          parseAllTemplates env names
            (rv\<lparr>templates := DAList.update base tmpl (templates rv)\<rparr>))"

definition createInternalTemplate ::
  "('d, 't) env \<Rightarrow> heap \<Rightarrow> string \<Rightarrow> heap \<times> 't internalTemplate \<times> error option" where
  "createInternalTemplate env h directory =
     (let rv = \<lparr>variables = DAList.empty, templates = DAList.empty, sourceDir = directory\<rparr> in
      case Glob env (Join env [directory, ''*.vars'']) of
        Inl err \<Rightarrow> (h, rv, Some err)
      | Inr names \<Rightarrow>
          (case readAllValues env names h rv of
             (h, rv, Some err) \<Rightarrow> (h, rv, Some err)
           | (h, rv, None) \<Rightarrow>
               (case Glob env (Join env [directory, ''*.yaml'']) of
                  Inl err \<Rightarrow> (h, rv, Some err)
                | Inr names \<Rightarrow>
                    (case parseAllTemplates env names rv of
                       (rv, err) \<Rightarrow> (h, rv, err)))))"

definition getVariables :: "'t internalTemplate \<Rightarrow> string \<Rightarrow> Values" where
  "getVariables i context =
     (case DAList.lookup (variables i) context of
        Some rv \<Rightarrow> rv
      | None \<Rightarrow> \<lparr>Values = None\<rparr>)"

subsection \<open>The operating system\<close>

text \<open>
  \<open>os.Mkdir\<close> fails on a path that exists; \<open>os.MkdirAll\<close> does not; \<open>os.Create\<close>
  creates or truncates. Nothing here removes a path.
\<close>

definition os_Mkdir :: "('d, 't) env \<Rightarrow> world \<Rightarrow> string \<Rightarrow> world \<times> error option" where
  "os_Mkdir env w path =
     (if refused env w path then (w, Some (OSError (''mkdir '' @ path)))
      else if path \<in> set (present w) then (w, Some (ErrExist path))
      else (w\<lparr>present := path # present w\<rparr>, None))"

definition os_MkdirAll :: "('d, 't) env \<Rightarrow> world \<Rightarrow> string \<Rightarrow> world \<times> error option" where
  "os_MkdirAll env w path =
     (if refused env w path then (w, Some (OSError (''mkdir '' @ path)))
      else (w\<lparr>present := List.insert path (present w)\<rparr>, None))"

definition os_Create :: "('d, 't) env \<Rightarrow> world \<Rightarrow> string \<Rightarrow> world \<times> error option" where
  "os_Create env w path =
     (if refused env w path then (w, Some (OSError (''open '' @ path)))
      else (w\<lparr>present := List.insert path (present w)\<rparr>, None))"

fun IsExist :: "error \<Rightarrow> bool" where
  "IsExist (ErrExist path) = True"
| "IsExist e = False"

text \<open>
  \<open>ioutil.TempDir(dir, prefix)\<close>, as the Go library of the module's time has it: up to
  10000 times, draw a random name and try to make the directory \<open>dir/prefix+name\<close>
  with \<open>os.Mkdir\<close>; a name that is taken is skipped, any other failure ends the call.
  An empty \<open>dir\<close> stands for \<open>os.TempDir()\<close>. \<open>tryNames\<close> is that loop with the number
  of tries left and the error of the last try.
\<close>

fun tryNames ::
  "('d, 't) env \<Rightarrow> string \<Rightarrow> string \<Rightarrow> nat \<Rightarrow> world \<Rightarrow> error option
     \<Rightarrow> world \<times> string \<times> error option" where
  "tryNames env dir prefix' 0 w err = (w, '''', err)"
| "tryNames env dir prefix' (Suc n) w err =
     (let try = Join env [dir, prefix' @ nextRandom env (randoms w)];
          w = w\<lparr>randoms := Suc (randoms w)\<rparr>
      in case os_Mkdir env w try of
           (w, None) \<Rightarrow> (w, try, None)
         | (w, Some e) \<Rightarrow>
             if IsExist e then tryNames env dir prefix' n w (Some e)
             else (w, '''', Some e))"

definition ioutil_TempDir ::
  "('d, 't) env \<Rightarrow> world \<Rightarrow> string \<Rightarrow> string \<Rightarrow> world \<times> string \<times> error option" where
  "ioutil_TempDir env w dir prefix' =
     tryNames env (if dir = [] then os_TempDir env else dir) prefix' 10000 w None"

subsection \<open>expandDirectory\<close>

text \<open>\<open>mktemp\<close>: \<open>os.Stat(base)\<close> reports a missing base when the path is not present.\<close>

definition mktemp ::
  "('d, 't) env \<Rightarrow> world \<Rightarrow> string \<Rightarrow> string \<Rightarrow> world \<times> string \<times> error option" where
  "mktemp env w base leaf =
     (if base \<notin> set (present w)
      then (case os_MkdirAll env w base of
              (w, Some err) \<Rightarrow> (w, '''', Some err)
            | (w, None) \<Rightarrow> ioutil_TempDir env w base leaf)
      else ioutil_TempDir env w base leaf)"

text \<open>
  The first two statements of \<open>expandDirectory\<close>: the variables every template of the
  context is rendered with. Assigning into a nil map would panic.
\<close>

definition renderValues ::
  "heap \<Rightarrow> 't internalTemplate \<Rightarrow> string \<Rightarrow> panic + (heap \<times> Values)" where
  "renderValues h data context =
     (let (h, values) =
            mergeValues h (getVariables data ''default'') (getVariables data context)
      in case Values values of
           None \<Rightarrow> Inl NilMapAssignment
         | Some m \<Rightarrow> Inr (map_assign h m ''context'' context, values))"

text \<open>The loop over the templates: create the output file, record it, render into it.\<close>

fun renderAll ::
  "('d, 't) env \<Rightarrow> (string \<Rightarrow> string option) \<Rightarrow> string \<Rightarrow> (string \<times> 't) list
     \<Rightarrow> world \<Rightarrow> TemplateData \<Rightarrow> world \<times> TemplateData \<times> error option" where
  "renderAll env values outDir [] w rv = (w, rv, None)"
| "renderAll env values outDir ((filename, tpl) # rest) w rv =
     (case os_Create env w (Join env [outDir, filename]) of
        (w, Some err) \<Rightarrow> (w, rv, Some err)
      | (w, None) \<Rightarrow>
          (let rv = rv\<lparr>Files := Files rv @ [filename]\<rparr> in
           case Execute env tpl values of
             Some err \<Rightarrow> (w, rv, Some err)
           | None \<Rightarrow> renderAll env values outDir rest w rv))"

text \<open>
  The loop over the fixture files: open the source, create the copy, record it. A failure
  of \<open>io.Copy\<close> is ignored by the code, so only a source that cannot be opened stops it.
\<close>

fun copyTests ::
  "('d, 't) env \<Rightarrow> string \<Rightarrow> string list \<Rightarrow> world \<Rightarrow> TemplateData
     \<Rightarrow> world \<times> TemplateData \<times> error option" where
  "copyTests env outDir [] w rv = (w, rv, None)"
| "copyTests env outDir (file # rest) w rv =
     (case os_Open (sourceFiles env) file of
        OpenFails err \<Rightarrow> (w, rv, Some err)
      | source \<Rightarrow>
          (case os_Create env w (Join env [outDir, ''tests'', filepath_Base file]) of
             (w, Some err) \<Rightarrow> (w, rv, Some err)
           | (w, None) \<Rightarrow>
               copyTests env outDir rest w
                 (rv\<lparr>Files := Files rv @ [Join env [''tests'', filepath_Base file]]\<rparr>)))"

definition expandDirectory ::
  "('d, 't) env \<Rightarrow> heap \<times> world \<Rightarrow> string \<Rightarrow> 't internalTemplate
     \<Rightarrow> panic + ((heap \<times> world) \<times> TemplateData \<times> error option)" where
  "expandDirectory env s context data =
     (case renderValues (fst s) data context of
        Inl p \<Rightarrow> Inl p
      | Inr (h, values) \<Rightarrow>
          (let rv = \<lparr>Context = '''', Directory = '''', Files = []\<rparr> in
           case mktemp env (snd s) (DefaultTempDirectory env) (''tmp-'' @ context @ ''-'') of
             (w, outDir, Some err) \<Rightarrow> Inr ((h, w), rv, Some err)
           | (w, outDir, None) \<Rightarrow>
               (let rv = rv\<lparr>Directory := outDir, Context := context\<rparr> in
                case renderAll env (map_index h (Values values)) outDir
                       (DAList.impl_of (templates data)) w rv of
                  (w, rv, Some err) \<Rightarrow> Inr ((h, w), rv, Some err)
                | (w, rv, None) \<Rightarrow>
                    (let w = fst (os_Mkdir env w (Join env [outDir, ''tests''])) in
                     case Glob env (Join env [sourceDir data, ''tests'', ''*.yaml'']) of
                       Inl err \<Rightarrow> Inr ((h, w), rv, Some err)
                     | Inr testFiles \<Rightarrow>
                         (case copyTests env outDir testFiles w rv of
                            (w, rv, err) \<Rightarrow> Inr ((h, w), rv, err))))))"

subsection \<open>ExpandDirectory\<close>

text \<open>The loop over the contexts: the first failing context ends the run.\<close>

fun expandAll ::
  "('d, 't) env \<Rightarrow> 't internalTemplate \<Rightarrow> string list \<Rightarrow> heap \<times> world \<Rightarrow> ExpansionData
     \<Rightarrow> panic + ((heap \<times> world) \<times> ExpansionData option \<times> error option)" where
  "expandAll env templates' [] s rv = Inr (s, Some rv, None)"
| "expandAll env templates' (context # contexts) s rv =
     (case expandDirectory env s context templates' of
        Inl p \<Rightarrow> Inl p
      | Inr (s, data, Some err) \<Rightarrow> Inr (s, None, Some err)
      | Inr (s, data, None) \<Rightarrow>
          expandAll env templates' contexts s (DAList.update context data rv))"

definition ExpandDirectory ::
  "('d, 't) env \<Rightarrow> heap \<times> world \<Rightarrow> string list \<Rightarrow> string
     \<Rightarrow> panic + ((heap \<times> world) \<times> ExpansionData option \<times> error option)" where
  "ExpandDirectory env s contexts sourceDirectory =
     (let rv = DAList.empty in
      case createInternalTemplate env (fst s) sourceDirectory of
        (h, templates', Some err) \<Rightarrow> Inr ((h, snd s), Some rv, Some err)
      | (h, templates', None) \<Rightarrow> expandAll env templates' contexts (h, snd s) rv)"

subsection \<open>Example inputs\<close>

text \<open>Example variable layers: the tables of the package's own merge test.\<close>

definition exampleStore :: heap where
  "exampleStore =
     [DAList.update ''c'' ''xyzzy''
        (DAList.update ''b'' ''bar'' (DAList.update ''a'' ''foo'' DAList.empty)),
      DAList.update ''b'' ''overridden'' DAList.empty,
      DAList.update ''context'' ''spoofed'' DAList.empty]"

definition exampleLayers :: "string internalTemplate" where
  "exampleLayers =
     \<lparr>variables =
        DAList.update ''prod'' \<lparr>Values = Some 2\<rparr>
          (DAList.update ''default'' \<lparr>Values = Some 0\<rparr> DAList.empty),
      templates = DAList.empty,
      sourceDir = ''/src''\<rparr>"





text \<open>
  The predicates of the statements about a run: every directory recorded in the result
  exists, and the directories recorded for two different contexts differ.
\<close>

definition directoriesPresent :: "ExpansionData \<Rightarrow> world \<Rightarrow> bool" where
  "directoriesPresent rv w =
     (\<forall>c t. DAList.lookup rv c = Some t \<longrightarrow> Directory t \<in> set (present w))"

definition directoriesDistinct :: "ExpansionData \<Rightarrow> bool" where
  "directoriesDistinct rv =
     (\<forall>c1 c2 t1 t2. c1 \<noteq> c2 \<and> DAList.lookup rv c1 = Some t1 \<and> DAList.lookup rv c2 = Some t2
         \<longrightarrow> Directory t1 \<noteq> Directory t2)"

text \<open>
  An example source directory \<open>/src\<close> with two variable files, two templates and one
  fixture. The content of a variable file is given by what the decoder makes of it; a parsed
  template is represented by the path it was read from. The first three random names
  are the same, so that \<open>ioutil.TempDir\<close> meets names that are taken.
\<close>

fun exampleJoin :: "string list \<Rightarrow> string" where
  "exampleJoin [] = ''''"
| "exampleJoin [e] = e"
| "exampleJoin (e # es) = e @ ''/'' @ exampleJoin es"

definition exampleGlobs :: "string \<Rightarrow> error + string list" where
  "exampleGlobs pattern =
     (if pattern = ''/src/*.vars'' then Inr [''/src/default.vars'', ''/src/prod.vars'']
      else if pattern = ''/src/*.yaml'' then Inr [''/src/a.yaml'', ''/src/b.yaml'']
      else if pattern = ''/src/tests/*.yaml'' then Inr [''/src/tests/a_test.yaml'']
      else Inr [])"

definition exampleRandom :: "nat \<Rightarrow> string" where
  "exampleRandom n = (if n < 3 then ''111'' else ''222'')"

definition exampleEnv :: "((string \<times> string) list \<times> error option, string) env" where
  "exampleEnv =
     \<lparr>Join = exampleJoin,
      Glob = exampleGlobs,
      sourceFiles =
        [(''/src/default.vars'', Contents ([(''cluster'', ''dev'')], None)),
         (''/src/prod.vars'', Contents ([(''cluster'', ''prod''), (''context'', ''spoofed'')], None)),
         (''/src/tests/a_test.yaml'', Contents ([], None))],
      Unmarshal = id,
      ParseFiles = (\<lambda>base left right name. Inr name),
      Execute = (\<lambda>tpl values. None),
      refused = (\<lambda>w path. False),
      nextRandom = exampleRandom,
      os_TempDir = ''/tmp'',
      DefaultTempDirectory = ''/tmp/prometheus-config-loader''\<rparr>"

text \<open>
  A rendering that fails on every variable mapping whose \<open>context\<close> is not the given
  identifier.
\<close>

definition strictExecute :: "string \<Rightarrow> string \<Rightarrow> (string \<Rightarrow> string option) \<Rightarrow> error option" where
  "strictExecute c tpl vals =
     (if vals ''context'' = Some c then None
      else Some (TemplateError ''template: wrong context''))"




definition emptyWorld :: world where
  "emptyWorld = \<lparr>present = [], randoms = 0\<rparr>"

section \<open>Properties of package cfgloader\<close>

subsection \<open>Base names and the derived name\<close>

lemma ReplaceAll_char:
  "strings_ReplaceAll s [a] [b] = map (\<lambda>c. if c = a then b else c) s"
  by (induction s) auto

lemma lastElement_no_slash: "CHR ''/'' \<notin> set (lastElement p)"
  unfolding lastElement_def by (auto dest: set_takeWhileD)

lemma Base_no_slash:
  "filepath_Base p \<noteq> ''/'' \<Longrightarrow> CHR ''/'' \<notin> set (filepath_Base p)"
  unfolding filepath_Base_def Let_def
  by (simp add: lastElement_no_slash split: if_splits)

lemma strip_no_trailing:
  assumes "name \<noteq> []" and "last name \<noteq> CHR ''/''"
  shows "stripTrailingSlashes (pre @ name) = pre @ name"
proof -
  from assms obtain x xs where r: "rev name = x # xs" and x: "x \<noteq> CHR ''/''"
    by (cases "rev name") (auto simp: last_rev[symmetric] simp del: last_rev)
  show ?thesis
    unfolding stripTrailingSlashes_def using r x by (simp add: rev_swap[symmetric])
qed

lemma lastElement_join:
  assumes "CHR ''/'' \<notin> set name"
  shows "lastElement (dir @ CHR ''/'' # name) = name"
proof -
  have "takeWhile (\<lambda>c. c \<noteq> CHR ''/'') (rev name @ CHR ''/'' # rev dir) = rev name"
    using assms by (subst takeWhile_append2) auto
  then show ?thesis by (simp add: lastElement_def)
qed

lemma Base_of_join:
  assumes "name \<noteq> []" and "CHR ''/'' \<notin> set name"
  shows "filepath_Base (dir @ ''/'' @ name) = name"
proof -
  have "last name \<noteq> CHR ''/''" using assms by (metis last_in_set)
  then have "stripTrailingSlashes ((dir @ ''/'') @ name) = (dir @ ''/'') @ name"
    using assms(1) by (rule strip_no_trailing[rotated])
  then show ?thesis
    using assms by (simp add: filepath_Base_def Let_def lastElement_join)
qed

lemma buildRuleName_Inr_iff:
  "(\<exists>s. buildRuleName f p = Inr s) \<longleftrightarrow> 5 \<le> length (filepath_Base f)"
  by (auto simp add: buildRuleName_def Let_def)

lemma suffix_yaml_length: "suffix ''.yaml'' b \<Longrightarrow> 5 \<le> length b"
  by (auto simp: suffix_def)

text \<open>
  C4. When the base name of the path is \<open>stem.yaml\<close>, the derived name is
  \<open>{prometheus}-{stem with every dot turned into a hyphen}-rules\<close>: exactly the five
  bytes of \<open>.yaml\<close> are cut off, and the directory part of the path plays no role
  (putting any directory in front of the base name gives the same name).
\<close>

theorem buildRuleName_derived_name:
  assumes "filepath_Base fileName = stem @ ''.yaml''"
  shows "buildRuleName fileName prometheus =
           Inr (prometheus @ ''-'' @ map (\<lambda>c. if c = CHR ''.'' then CHR ''-'' else c) stem
                  @ ''-rules'')
       \<and> buildRuleName (dir @ ''/'' @ filepath_Base fileName) prometheus =
           buildRuleName fileName prometheus"
proof -
  have name: "buildRuleName fileName prometheus =
           Inr (prometheus @ ''-'' @ map (\<lambda>c. if c = CHR ''.'' then CHR ''-'' else c) stem
                  @ ''-rules'')"
    using assms by (simp add: buildRuleName_def Let_def ReplaceAll_char)
  have "filepath_Base fileName \<noteq> ''/''" using assms by simp
  then have "CHR ''/'' \<notin> set (filepath_Base fileName)" by (rule Base_no_slash)
  moreover have "filepath_Base fileName \<noteq> []" using assms by simp
  ultimately have "filepath_Base (dir @ ''/'' @ filepath_Base fileName) = filepath_Base fileName"
    by (rule Base_of_join[rotated])
  then have "buildRuleName (dir @ ''/'' @ filepath_Base fileName) prometheus =
           buildRuleName fileName prometheus"
    by (simp add: buildRuleName_def)
  with name show ?thesis by simp
qed

theorem buildRuleName_derived_name_witness:
  "filepath_Base ''/tmp/blah.blah.yaml'' = ''blah.blah'' @ ''.yaml''
   \<and> buildRuleName ''/tmp/blah.blah.yaml'' ''prom'' = Inr ''prom-blah-blah-rules''
   \<and> buildRuleName (''/var/rules'' @ ''/'' @ ''blah.blah.yaml'') ''prom'' =
       Inr ''prom-blah-blah-rules''"
proof -
  have b: "filepath_Base ''/tmp/blah.blah.yaml'' = ''blah.blah'' @ ''.yaml''"
    by (simp add: filepath_Base_def lastElement_def stripTrailingSlashes_def)
  show ?thesis
    using b buildRuleName_derived_name [OF b, of "''prom''" "''/var/rules''"] by simp
qed

subsection \<open>Parsing a rule file\<close>

text \<open>
  C1, as the code has it. \<open>ParseRuleSpec\<close> returns an error exactly when the decoder
  reports one or the decoded content has no group. The \<open>record\<close> and \<open>alert\<close> fields
  are not looked at: every decoded rule, also one with both fields or neither field set, is
  copied with the two fields unchanged, and \<open>LoadConfigurationFile\<close> returns a document
  for such a file.
\<close>

theorem ParseRuleSpec_rejects_only_undecodable_or_empty:
  "(snd (ParseRuleSpec unmarshal data) = None \<longleftrightarrow>
      snd (unmarshal data) = None \<and> rulefmt_Groups (fst (unmarshal data)) \<noteq> [])
   \<and> (snd (ParseRuleSpec unmarshal data) = None \<longrightarrow>
        map (\<lambda>g. map (\<lambda>r. (Record r, Alert r)) (Rules g))
            (Groups (fst (ParseRuleSpec unmarshal data))) =
        map (\<lambda>g. map (\<lambda>r. (rulefmt_Record r, rulefmt_Alert r)) (rulefmt_Rules g))
            (rulefmt_Groups (fst (unmarshal data))))
   \<and> (os_Open fs name = Contents data \<and> 5 \<le> length (filepath_Base name) \<longrightarrow>
        (fileError fs unmarshal namespace prometheus name = None \<longleftrightarrow>
           snd (unmarshal data) = None \<and> rulefmt_Groups (fst (unmarshal data)) \<noteq> []) \<and>
        (fileRule fs unmarshal namespace prometheus name \<noteq> None \<longleftrightarrow>
           fileError fs unmarshal namespace prometheus name = None))"
proof -
  obtain intermediate err where u: "unmarshal data = (intermediate, err)"
    by (cases "unmarshal data")
  have accept: "snd (ParseRuleSpec unmarshal data) = None \<longleftrightarrow>
      snd (unmarshal data) = None \<and> rulefmt_Groups (fst (unmarshal data)) \<noteq> []"
    using u by (cases err) (simp_all add: ParseRuleSpec_def Let_def)
  have copy: "snd (ParseRuleSpec unmarshal data) = None \<longrightarrow>
        map (\<lambda>g. map (\<lambda>r. (Record r, Alert r)) (Rules g))
            (Groups (fst (ParseRuleSpec unmarshal data))) =
        map (\<lambda>g. map (\<lambda>r. (rulefmt_Record r, rulefmt_Alert r)) (rulefmt_Rules g))
            (rulefmt_Groups (fst (unmarshal data)))"
    using u by (cases err) (simp_all add: ParseRuleSpec_def Let_def convertGroup_def convertRule_def comp_def)
  have load: "os_Open fs name = Contents data \<and> 5 \<le> length (filepath_Base name) \<longrightarrow>
        (fileError fs unmarshal namespace prometheus name = None \<longleftrightarrow>
           snd (unmarshal data) = None \<and> rulefmt_Groups (fst (unmarshal data)) \<noteq> []) \<and>
        (fileRule fs unmarshal namespace prometheus name \<noteq> None \<longleftrightarrow>
           fileError fs unmarshal namespace prometheus name = None)"
  proof
    assume a: "os_Open fs name = Contents data \<and> 5 \<le> length (filepath_Base name)"
    then obtain s where s: "buildRuleName name prometheus = Inr s"
      using buildRuleName_Inr_iff by blast
    obtain spec perr where p: "ParseRuleSpec unmarshal data = (spec, perr)"
      by (cases "ParseRuleSpec unmarshal data")
    show "(fileError fs unmarshal namespace prometheus name = None \<longleftrightarrow>
           snd (unmarshal data) = None \<and> rulefmt_Groups (fst (unmarshal data)) \<noteq> []) \<and>
        (fileRule fs unmarshal namespace prometheus name \<noteq> None \<longleftrightarrow>
           fileError fs unmarshal namespace prometheus name = None)"
      using a s p accept
      by (cases perr) (simp_all add: fileError_def fileRule_def LoadConfigurationFile_def)
  qed
  from accept copy load show ?thesis by blast
qed

theorem ParseRuleSpec_rejects_only_undecodable_or_empty_witness:
  "snd (ParseRuleSpec id ambiguousContent) = None
   \<and> map (\<lambda>g. map (\<lambda>r. (Record r, Alert r)) (Rules g))
         (Groups (fst (ParseRuleSpec id ambiguousContent))) =
       [[(''job:up:sum'', ''Down''), ('''', '''')]]
   \<and> os_Open exampleFiles ''/out/c.yaml'' = Contents ambiguousContent
   \<and> 5 \<le> length (filepath_Base ''/out/c.yaml'')
   \<and> fileError exampleFiles id ''monitoring'' ''k8s'' ''/out/c.yaml'' = None
   \<and> fileRule exampleFiles id ''monitoring'' ''k8s'' ''/out/c.yaml'' \<noteq> None"
proof -
  have o: "os_Open exampleFiles ''/out/c.yaml'' = Contents ambiguousContent"
    by (simp add: os_Open_def exampleFiles_def)
  have l: "5 \<le> length (filepath_Base ''/out/c.yaml'')"
    by (simp add: filepath_Base_def lastElement_def stripTrailingSlashes_def)
  have g: "snd (id ambiguousContent) = None \<and> rulefmt_Groups (fst (id ambiguousContent)) \<noteq> []"
    by (simp add: ambiguousContent_def)
  have r: "map (\<lambda>g. map (\<lambda>r. (rulefmt_Record r, rulefmt_Alert r)) (rulefmt_Rules g))
            (rulefmt_Groups (fst (id ambiguousContent))) = [[(''job:up:sum'', ''Down''), ('''', '''')]]"
    by (simp add: ambiguousContent_def bothRule_def neitherRule_def)
  show ?thesis
    using ParseRuleSpec_rejects_only_undecodable_or_empty
            [of id ambiguousContent exampleFiles "''/out/c.yaml''" "''monitoring''" "''k8s''"]
          o l g r
    by simp
qed

text \<open>
  The specification has such a file rejected; the code loads it: a file whose only group
  holds a rule with both fields set and a rule with neither is parsed without error and
  loaded into a document.
\<close>

theorem ParseRuleSpec_accepts_ambiguous_rule:
  "ambiguousKind bothRule \<and> ambiguousKind neitherRule
   \<and> ParseRuleSpec id ambiguousContent =
       (\<lparr>Groups =
           [\<lparr>Name = ''g'', Interval = '''',
             Rules =
               [\<lparr>Record = ''job:up:sum'', Alert = ''Down'', Expr = FromString ''up == 0'',
                 For = ''5m'', Labels = [], Annotations = []\<rparr>,
                \<lparr>Record = '''', Alert = '''', Expr = FromString ''up'',
                 For = '''', Labels = [], Annotations = []\<rparr>]\<rparr>]\<rparr>,
        None)
   \<and> LoadConfigurationFile [(''/out/c.yaml'', Contents ambiguousContent)] id
         ''/out/c.yaml'' ''monitoring'' ''k8s'' =
       Inr (Some \<lparr>ObjectNamespace = ''monitoring'',
                  ObjectName = ''k8s-c-rules'',
                  ObjectLabels = [(''prometheus'', ''k8s''), (''role'', ''prometheus-rulefiles'')],
                  Spec = fst (ParseRuleSpec id ambiguousContent)\<rparr>,
            None)"
  by (simp add: ambiguousKind_def bothRule_def neitherRule_def ambiguousContent_def
        ParseRuleSpec_def convertGroup_def convertRule_def LoadConfigurationFile_def
        os_Open_def buildRuleName_def filepath_Base_def lastElement_def
        stripTrailingSlashes_def Let_def)

subsection \<open>Scanning a directory\<close>

lemma LoadConfigurationFile_returns:
  assumes "5 \<le> length (filepath_Base name)"
  shows "LoadConfigurationFile fs unmarshal name namespace prometheus =
           Inr (fileRule fs unmarshal namespace prometheus name,
                fileError fs unmarshal namespace prometheus name)"
proof -
  from assms obtain s where "buildRuleName name prometheus = Inr s"
    using buildRuleName_Inr_iff by blast
  then show ?thesis
    by (simp add: fileRule_def fileError_def LoadConfigurationFile_def
             split: osfile.splits prod.splits option.splits)
qed

lemma LoadConfigurationFile_document:
  "LoadConfigurationFile fs unmarshal name namespace prometheus = Inr (rule, None)
     \<Longrightarrow> rule \<noteq> None"
  by (auto simp: LoadConfigurationFile_def
           split: osfile.splits prod.splits option.splits sum.splits)

text \<open>
  The loop invariant, for any starting accumulators: the items grow by the documents of the
  files that load, in scan order, and the error ends as the last failure seen, or as it
  started when no file fails.
\<close>

lemma loadFiles_result:
  assumes "\<forall>n \<in> set names. 5 \<le> length (filepath_Base n)"
  shows "loadFiles fs unmarshal namespace prometheus names items errSeen =
           Inr (items @ map (fileRule fs unmarshal namespace prometheus)
                          (filter (\<lambda>n. fileError fs unmarshal namespace prometheus n = None) names),
                last (errSeen # filter (\<lambda>e. e \<noteq> None)
                                 (map (fileError fs unmarshal namespace prometheus) names)))"
  using assms
proof (induction names arbitrary: items errSeen)
  case Nil
  then show ?case by simp
next
  case (Cons n names)
  then have n: "LoadConfigurationFile fs unmarshal n namespace prometheus =
           Inr (fileRule fs unmarshal namespace prometheus n,
                fileError fs unmarshal namespace prometheus n)"
    by (simp add: LoadConfigurationFile_returns)
  from Cons have IH: "\<And>items errSeen.
         loadFiles fs unmarshal namespace prometheus names items errSeen =
           Inr (items @ map (fileRule fs unmarshal namespace prometheus)
                          (filter (\<lambda>n. fileError fs unmarshal namespace prometheus n = None) names),
                last (errSeen # filter (\<lambda>e. e \<noteq> None)
                                 (map (fileError fs unmarshal namespace prometheus) names)))"
    by simp
  show ?case
  proof (cases "fileError fs unmarshal namespace prometheus n")
    case None
    then show ?thesis using n IH by simp
  next
    case (Some e)
    then show ?thesis using n IH by simp
  qed
qed

lemma last_failure_not_None:
  assumes "\<exists>x \<in> set xs. x \<noteq> None"
  shows "last (None # filter (\<lambda>e. e \<noteq> None) xs) \<noteq> (None :: 'a option)"
proof -
  from assms have ne: "filter (\<lambda>e. e \<noteq> None) xs \<noteq> []"
    by (simp add: filter_empty_conv)
  then have "last (filter (\<lambda>e. e \<noteq> None) xs) \<in> set (filter (\<lambda>e. e \<noteq> None) xs)"
    by (rule last_in_set)
  with ne show ?thesis by simp
qed

text \<open>
  C2. When the glob gives a non-empty list of \<open>*.yaml\<close> paths, the scan visits every
  one of them whatever the earlier files did: the returned list holds, in scan order, the
  document of each file that loads without error (a document, never nil), and the returned
  error is the error of the last file that fails, so it is not nil as soon as one file fails.
\<close>

theorem LoadConfigurationDirectory_keeps_last_failure:
  assumes "glob directory = Inr names"
      and "names \<noteq> []"
      and "\<forall>n \<in> set names. suffix ''.yaml'' (filepath_Base n)"
  shows "LoadConfigurationDirectory glob fs unmarshal directory namespace prometheus =
           Inr (Some \<lparr>Items =
                   map (fileRule fs unmarshal namespace prometheus)
                     (filter (\<lambda>n. fileError fs unmarshal namespace prometheus n = None) names)\<rparr>,
                last (None # filter (\<lambda>e. e \<noteq> None)
                               (map (fileError fs unmarshal namespace prometheus) names)))
       \<and> (\<forall>n \<in> set names. fileError fs unmarshal namespace prometheus n = None \<longrightarrow>
              fileRule fs unmarshal namespace prometheus n \<noteq> None)
       \<and> ((\<exists>n \<in> set names. fileError fs unmarshal namespace prometheus n \<noteq> None) \<longrightarrow>
             last (None # filter (\<lambda>e. e \<noteq> None)
                             (map (fileError fs unmarshal namespace prometheus) names)) \<noteq> None)"
proof -
  have long: "\<forall>n \<in> set names. 5 \<le> length (filepath_Base n)"
    using assms(3) suffix_yaml_length by blast
  have scan: "loadFiles fs unmarshal namespace prometheus names [] None =
           Inr (map (fileRule fs unmarshal namespace prometheus)
                     (filter (\<lambda>n. fileError fs unmarshal namespace prometheus n = None) names),
                last (None # filter (\<lambda>e. e \<noteq> None)
                               (map (fileError fs unmarshal namespace prometheus) names)))"
    using loadFiles_result [OF long, of fs unmarshal namespace prometheus "[]" None]
    by simp
  have result: "LoadConfigurationDirectory glob fs unmarshal directory namespace prometheus =
           Inr (Some \<lparr>Items =
                   map (fileRule fs unmarshal namespace prometheus)
                     (filter (\<lambda>n. fileError fs unmarshal namespace prometheus n = None) names)\<rparr>,
                last (None # filter (\<lambda>e. e \<noteq> None)
                               (map (fileError fs unmarshal namespace prometheus) names)))"
    using assms(1,2) scan by (simp add: LoadConfigurationDirectory_def)
  have docs: "\<forall>n \<in> set names. fileError fs unmarshal namespace prometheus n = None \<longrightarrow>
              fileRule fs unmarshal namespace prometheus n \<noteq> None"
  proof (intro ballI impI)
    fix n
    assume "n \<in> set names" and ok: "fileError fs unmarshal namespace prometheus n = None"
    then have "LoadConfigurationFile fs unmarshal n namespace prometheus =
           Inr (fileRule fs unmarshal namespace prometheus n, None)"
      using long LoadConfigurationFile_returns [of n fs unmarshal namespace prometheus]
      by simp
    then show "fileRule fs unmarshal namespace prometheus n \<noteq> None"
      by (rule LoadConfigurationFile_document)
  qed
  have nonnil: "(\<exists>n \<in> set names. fileError fs unmarshal namespace prometheus n \<noteq> None) \<longrightarrow>
             last (None # filter (\<lambda>e. e \<noteq> None)
                             (map (fileError fs unmarshal namespace prometheus) names)) \<noteq> None"
  proof
    assume "\<exists>n \<in> set names. fileError fs unmarshal namespace prometheus n \<noteq> None"
    then have "\<exists>x \<in> set (map (fileError fs unmarshal namespace prometheus) names). x \<noteq> None"
      by auto
    then show "last (None # filter (\<lambda>e. e \<noteq> None)
                  (map (fileError fs unmarshal namespace prometheus) names)) \<noteq> None"
      by (rule last_failure_not_None)
  qed
  from result docs nonnil show ?thesis by blast
qed

lemma exampleNames_yaml: "\<forall>n \<in> set exampleNames. suffix ''.yaml'' (filepath_Base n)"
  by (simp add: exampleNames_def suffix_def filepath_Base_def lastElement_def
        stripTrailingSlashes_def)

lemma example_outcomes:
  "fileError exampleFiles id ''monitoring'' ''k8s'' ''/out/a.yaml'' = None"
  "fileError exampleFiles id ''monitoring'' ''k8s'' ''/out/b.yaml'' =
     Some (YamlError ''yaml: line 1: did not find expected key'')"
  "fileError exampleFiles id ''monitoring'' ''k8s'' ''/out/c.yaml'' = None"
  "fileError exampleFiles id ''monitoring'' ''k8s'' ''/out/d.yaml'' = Some ErrNoGroupsFound"
  "fileRule exampleFiles id ''monitoring'' ''k8s'' ''/out/a.yaml'' =
     Some \<lparr>ObjectNamespace = ''monitoring'', ObjectName = ''k8s-a-rules'',
           ObjectLabels = [(''prometheus'', ''k8s''), (''role'', ''prometheus-rulefiles'')],
           Spec = fst (ParseRuleSpec id goodContent)\<rparr>"
  "fileRule exampleFiles id ''monitoring'' ''k8s'' ''/out/c.yaml'' =
     Some \<lparr>ObjectNamespace = ''monitoring'', ObjectName = ''k8s-c-rules'',
           ObjectLabels = [(''prometheus'', ''k8s''), (''role'', ''prometheus-rulefiles'')],
           Spec = fst (ParseRuleSpec id ambiguousContent)\<rparr>"
  by (simp_all add: fileError_def fileRule_def LoadConfigurationFile_def os_Open_def
        exampleFiles_def goodContent_def malformedContent_def ambiguousContent_def
        emptyContent_def ParseRuleSpec_def buildRuleName_def filepath_Base_def
        lastElement_def stripTrailingSlashes_def Let_def)

theorem LoadConfigurationDirectory_keeps_last_failure_witness:
  "exampleGlob ''/out'' = Inr exampleNames
   \<and> exampleNames \<noteq> []
   \<and> LoadConfigurationDirectory exampleGlob exampleFiles id ''/out'' ''monitoring'' ''k8s'' =
       Inr (Some \<lparr>Items =
               [Some \<lparr>ObjectNamespace = ''monitoring'', ObjectName = ''k8s-a-rules'',
                      ObjectLabels = [(''prometheus'', ''k8s''),
                                      (''role'', ''prometheus-rulefiles'')],
                      Spec = fst (ParseRuleSpec id goodContent)\<rparr>,
                Some \<lparr>ObjectNamespace = ''monitoring'', ObjectName = ''k8s-c-rules'',
                      ObjectLabels = [(''prometheus'', ''k8s''),
                                      (''role'', ''prometheus-rulefiles'')],
                      Spec = fst (ParseRuleSpec id ambiguousContent)\<rparr>]\<rparr>,
            Some ErrNoGroupsFound)"
proof -
  have g: "exampleGlob ''/out'' = Inr exampleNames" by (simp add: exampleGlob_def)
  have n: "exampleNames \<noteq> []" by (simp add: exampleNames_def)
  show ?thesis
    using g n
      LoadConfigurationDirectory_keeps_last_failure
        [where glob = exampleGlob and directory = "''/out''" and names = exampleNames
           and fs = exampleFiles and unmarshal = id and namespace = "''monitoring''"
           and prometheus = "''k8s''", OF g n exampleNames_yaml]
    by (simp add: exampleNames_def example_outcomes)
qed

text \<open>
  C10. \<open>buildRuleName\<close> panics exactly when the base name of its argument has fewer than
  five bytes. A base name that ends in \<open>.yaml\<close> has at least five, so for such a name
  \<open>buildRuleName\<close> returns; and \<open>LoadConfigurationDirectory\<close> returns without a panic
  whenever every path the glob gives has a base name of at least five bytes, as the paths
  matching \<open>*.yaml\<close> have.
\<close>

theorem buildRuleName_panics_only_below_five_bytes:
  "(buildRuleName fileName prometheus = Inl SliceBoundsOutOfRange \<longleftrightarrow>
      length (filepath_Base fileName) < 5)
   \<and> (suffix ''.yaml'' (filepath_Base fileName) \<longrightarrow>
        5 \<le> length (filepath_Base fileName) \<and>
        (\<exists>s. buildRuleName fileName prometheus = Inr s))
   \<and> ((\<forall>names n. glob directory = Inr names \<longrightarrow> n \<in> set names \<longrightarrow>
                     5 \<le> length (filepath_Base n)) \<longrightarrow>
        (\<exists>r. LoadConfigurationDirectory glob fs unmarshal directory namespace prometheus = Inr r))"
proof -
  have iff: "buildRuleName fileName prometheus = Inl SliceBoundsOutOfRange \<longleftrightarrow>
      length (filepath_Base fileName) < 5"
    by (simp add: buildRuleName_def Let_def)
  have one: "suffix ''.yaml'' (filepath_Base fileName) \<longrightarrow>
        5 \<le> length (filepath_Base fileName) \<and>
        (\<exists>s. buildRuleName fileName prometheus = Inr s)"
    using suffix_yaml_length [of "filepath_Base fileName"]
          buildRuleName_Inr_iff [of fileName prometheus]
    by blast
  have dir: "(\<forall>names n. glob directory = Inr names \<longrightarrow> n \<in> set names \<longrightarrow>
                     5 \<le> length (filepath_Base n)) \<longrightarrow>
        (\<exists>r. LoadConfigurationDirectory glob fs unmarshal directory namespace prometheus = Inr r)"
  proof
    assume pre: "\<forall>names n. glob directory = Inr names \<longrightarrow> n \<in> set names \<longrightarrow>
                     5 \<le> length (filepath_Base n)"
    show "\<exists>r. LoadConfigurationDirectory glob fs unmarshal directory namespace prometheus = Inr r"
    proof (cases "glob directory")
      case (Inl err)
      then show ?thesis by (simp add: LoadConfigurationDirectory_def)
    next
      case (Inr names)
      with pre have "\<forall>n \<in> set names. 5 \<le> length (filepath_Base n)" by blast
      then have "\<exists>r. loadFiles fs unmarshal namespace prometheus names [] None = Inr r"
        by (simp add: loadFiles_result)
      with Inr show ?thesis by (auto simp: LoadConfigurationDirectory_def)
    qed
  qed
  from iff one dir show ?thesis by blast
qed

theorem buildRuleName_panics_only_below_five_bytes_witness:
  "buildRuleName ''/out/a.y'' ''k8s'' = Inl SliceBoundsOutOfRange
   \<and> length (filepath_Base ''/out/a.y'') < 5
   \<and> suffix ''.yaml'' (filepath_Base ''/out/a.yaml'')
   \<and> 5 \<le> length (filepath_Base ''/out/a.yaml'')
   \<and> (\<exists>s. buildRuleName ''/out/a.yaml'' ''k8s'' = Inr s)
   \<and> (\<exists>r. LoadConfigurationDirectory exampleGlob exampleFiles id ''/out'' ''monitoring'' ''k8s''
             = Inr r)"
proof -
  have short: "length (filepath_Base ''/out/a.y'') < 5"
    by (simp add: filepath_Base_def lastElement_def stripTrailingSlashes_def)
  have yaml: "suffix ''.yaml'' (filepath_Base ''/out/a.yaml'')"
    by (simp add: suffix_def filepath_Base_def lastElement_def stripTrailingSlashes_def)
  have globbed: "\<forall>names n. exampleGlob ''/out'' = Inr names \<longrightarrow> n \<in> set names \<longrightarrow>
                     5 \<le> length (filepath_Base n)"
    using exampleNames_yaml suffix_yaml_length by (auto simp: exampleGlob_def)
  have a: "buildRuleName ''/out/a.y'' ''k8s'' = Inl SliceBoundsOutOfRange"
    using short
      buildRuleName_panics_only_below_five_bytes
        [where fileName = "''/out/a.y''" and prometheus = "''k8s''"]
    by blast
  have b: "5 \<le> length (filepath_Base ''/out/a.yaml'') \<and>
           (\<exists>s. buildRuleName ''/out/a.yaml'' ''k8s'' = Inr s)"
    using yaml
      buildRuleName_panics_only_below_five_bytes
        [where fileName = "''/out/a.yaml''" and prometheus = "''k8s''"]
    by blast
  have c: "\<exists>r. LoadConfigurationDirectory exampleGlob exampleFiles id ''/out'' ''monitoring'' ''k8s''
             = Inr r"
    using globbed
      buildRuleName_panics_only_below_five_bytes
        [where glob = exampleGlob and directory = "''/out''" and fs = exampleFiles
           and unmarshal = id and namespace = "''monitoring''" and prometheus = "''k8s''"]
    by blast
  from short yaml a b c show ?thesis by blast
qed

section \<open>Properties of package templates\<close>

subsection \<open>The store\<close>

lemma length_map_assign: "length (map_assign h m key val) = length h"
  by (simp add: map_assign_def)

lemma length_assignAll: "length (assignAll h m entries) = length h"
  by (induction h m entries rule: assignAll.induct) (simp_all add: length_map_assign)

lemma map_assign_other: "r \<noteq> m \<Longrightarrow> map_assign h m key val ! r = h ! r"
  by (simp add: map_assign_def)

lemma assignAll_other: "r \<noteq> m \<Longrightarrow> assignAll h m entries ! r = h ! r"
  by (induction h m entries rule: assignAll.induct) (simp_all add: map_assign_other)

lemma lookup_map_assign:
  "m < length h \<Longrightarrow>
     DAList.lookup (map_assign h m key val ! m) k =
       (if key = k then Some val else DAList.lookup (h ! m) k)"
  by (simp add: map_assign_def DAList.lookup_update)

text \<open>
  What the assignment loop leaves in the target table: the visited entries, over what the
  table held before.
\<close>

lemma lookup_assignAll:
  assumes "m < length h" and "distinct (map fst entries)"
  shows "DAList.lookup (assignAll h m entries ! m) k =
           (case map_of entries k of Some v \<Rightarrow> Some v | None \<Rightarrow> DAList.lookup (h ! m) k)"
  using assms
proof (induction entries arbitrary: h)
  case Nil
  then show ?case by simp
next
  case (Cons e entries)
  obtain key val where e: "e = (key, val)" by (cases e)
  from Cons.prems e have fresh: "map_of entries key = None"
    by (simp add: map_of_eq_None_iff)
  from Cons.prems have len: "m < length (map_assign h m key val)"
    by (simp add: length_map_assign)
  from Cons.prems have "distinct (map fst entries)" by simp
  with len have
    "DAList.lookup (assignAll (map_assign h m key val) m entries ! m) k =
       (case map_of entries k of
          Some v \<Rightarrow> Some v
        | None \<Rightarrow> DAList.lookup (map_assign h m key val ! m) k)"
    by (rule Cons.IH)
  then show ?case
    using e fresh Cons.prems(1) by (simp add: lookup_map_assign split: option.splits)
qed

lemma map_range_lookup:
  "(case map_of (map_range h m) k of Some v \<Rightarrow> Some v | None \<Rightarrow> d) =
     (case map_index h m k of Some v \<Rightarrow> Some v | None \<Rightarrow> d)"
  by (cases m) (simp_all add: map_range_def map_index_def DAList.lookup.rep_eq)

lemma distinct_map_range: "distinct (map fst (map_range h m))"
  by (cases m) (simp_all add: map_range_def)

lemma take_append_assignAll:
  "take (length h) (assignAll (h @ [t]) (length h) entries) = h"
proof (rule nth_equalityI)
  show "length (take (length h) (assignAll (h @ [t]) (length h) entries)) = length h"
    by (simp add: length_assignAll)
next
  fix i
  assume "i < length (take (length h) (assignAll (h @ [t]) (length h) entries))"
  then have i: "i < length h" by simp
  then have "assignAll (h @ [t]) (length h) entries ! i = (h @ [t]) ! i"
    by (simp add: assignAll_other)
  with i show "take (length h) (assignAll (h @ [t]) (length h) entries) ! i = h ! i"
    by (simp add: nth_append)
qed

lemma map_range_unchanged:
  assumes "allocated h m" and "take (length h) h' = h"
  shows "map_range h' m = map_range h m" and "map_index h' m = map_index h m"
proof -
  have "\<And>r. r < length h \<Longrightarrow> h' ! r = h ! r"
    using assms(2) by (metis nth_take)
  then show "map_range h' m = map_range h m" and "map_index h' m = map_index h m"
    using assms(1) by (cases m; simp add: allocated_def map_range_def map_index_def fun_eq_iff)+
qed

text \<open>The shape of a merge: one new table at the end of the store, the rest as it was.\<close>

lemma mergeValues_store:
  assumes "mergeValues h first second = (h', rv)"
  shows "Values rv = Some (length h)"
    and "length h' = Suc (length h)"
    and "take (length h) h' = h"
proof -
  let ?h1 = "assignAll (h @ [DAList.empty]) (length h)
               (map_range (h @ [DAList.empty]) (Values first))"
  from assms have h': "h' = assignAll ?h1 (length h) (map_range ?h1 (Values second))"
    and rv: "rv = \<lparr>Values = Some (length h)\<rparr>"
    by (simp_all add: mergeValues_def make_map_def Let_def)
  show "Values rv = Some (length h)" using rv by simp
  show "length h' = Suc (length h)" using h' by (simp add: length_assignAll)
  have one: "take (length h) ?h1 = h" by (rule take_append_assignAll)
  have "length ?h1 = Suc (length h)" by (simp add: length_assignAll)
  then obtain t ys where t: "?h1 = ys @ [t]" and ys: "length ys = length h"
    by (auto simp: length_Suc_conv_rev)
  with one have "?h1 = h @ [t]" by simp
  then show "take (length h) h' = h"
    using h' take_append_assignAll [of h t] by simp
qed

subsection \<open>Merging variable layers\<close>

text \<open>
  C5. For allocated inputs, the merged set maps every key to the second set's value if the
  second set has the key, else to the first set's value if the first set has it, and has no
  other key. Merging two sets of equal content gives that content. The merged set is a new
  table: the store it is added to keeps every table it had, so both inputs read as before.
\<close>

theorem mergeValues_right_biased:
  assumes "mergeValues h first second = (h', rv)"
      and "allocated h (Values first)"
      and "allocated h (Values second)"
  shows "(\<forall>k. map_index h' (Values rv) k =
              (case map_index h (Values second) k of
                 Some v \<Rightarrow> Some v
               | None \<Rightarrow> map_index h (Values first) k))
       \<and> dom (map_index h' (Values rv)) =
           dom (map_index h (Values first)) \<union> dom (map_index h (Values second))
       \<and> (map_index h (Values first) = map_index h (Values second) \<longrightarrow>
            map_index h' (Values rv) = map_index h (Values first))
       \<and> take (length h) h' = h
       \<and> map_index h' (Values first) = map_index h (Values first)
       \<and> map_index h' (Values second) = map_index h (Values second)
       \<and> map_range h' (Values first) = map_range h (Values first)
       \<and> map_range h' (Values second) = map_range h (Values second)"
proof -
  let ?m = "length h"
  let ?h0 = "h @ [DAList.empty]"
  let ?h1 = "assignAll ?h0 ?m (map_range ?h0 (Values first))"
  from assms(1) have h': "h' = assignAll ?h1 ?m (map_range ?h1 (Values second))"
    and rv: "Values rv = Some ?m"
    by (auto simp add: mergeValues_def make_map_def Let_def)
  have keep0: "take (length h) ?h0 = h" by simp
  have keep1: "take (length h) ?h1 = h" by (rule take_append_assignAll)
  have keep: "take (length h) h' = h" using assms(1) by (rule mergeValues_store(3))
  have r1: "map_range ?h0 (Values first) = map_range h (Values first)"
    using assms(2) keep0 by (rule map_range_unchanged(1))
  have r2: "map_range ?h1 (Values second) = map_range h (Values second)"
    using assms(3) keep1 by (rule map_range_unchanged(1))
  have len1: "?m < length ?h1" by (simp add: length_assignAll)
  have look: "map_index h' (Values rv) k =
              (case map_index h (Values second) k of
                 Some v \<Rightarrow> Some v
               | None \<Rightarrow> map_index h (Values first) k)" for k
  proof -
    have "DAList.lookup (?h1 ! ?m) k =
            (case map_of (map_range h (Values first)) k of
               Some v \<Rightarrow> Some v
             | None \<Rightarrow> DAList.lookup (?h0 ! ?m) k)"
      using lookup_assignAll [of ?m ?h0 "map_range h (Values first)" k]
      by (simp add: r1 distinct_map_range)
    then have first: "DAList.lookup (?h1 ! ?m) k = map_index h (Values first) k"
      using map_range_lookup [where h = h and m = "Values first" and k = k and d = None]
      by (simp add: DAList.lookup_empty split: option.splits)
    have "DAList.lookup (h' ! ?m) k =
            (case map_of (map_range h (Values second)) k of
               Some v \<Rightarrow> Some v
             | None \<Rightarrow> DAList.lookup (?h1 ! ?m) k)"
      unfolding h' r2
      using len1 distinct_map_range by (rule lookup_assignAll)
    also have "\<dots> = (case map_of (map_range h (Values second)) k of
               Some v \<Rightarrow> Some v
             | None \<Rightarrow> map_index h (Values first) k)"
      by (simp only: first)
    also have "\<dots> = (case map_index h (Values second) k of
               Some v \<Rightarrow> Some v
             | None \<Rightarrow> map_index h (Values first) k)"
      by (rule map_range_lookup)
    finally have "DAList.lookup (h' ! ?m) k =
            (case map_index h (Values second) k of
               Some v \<Rightarrow> Some v
             | None \<Rightarrow> map_index h (Values first) k)" .
    moreover have "map_index h' (Values rv) k = DAList.lookup (h' ! ?m) k"
      using rv by (simp add: map_index_def)
    ultimately show ?thesis by simp
  qed
  have dom: "dom (map_index h' (Values rv)) =
           dom (map_index h (Values first)) \<union> dom (map_index h (Values second))"
    by (auto simp: look dom_def split: option.splits)
  have idem: "map_index h (Values first) = map_index h (Values second) \<longrightarrow>
            map_index h' (Values rv) = map_index h (Values first)"
    by (auto simp: look fun_eq_iff split: option.splits)
  have same: "map_index h' (Values first) = map_index h (Values first)"
             "map_index h' (Values second) = map_index h (Values second)"
             "map_range h' (Values first) = map_range h (Values first)"
             "map_range h' (Values second) = map_range h (Values second)"
    using map_range_unchanged [OF assms(2) keep] map_range_unchanged [OF assms(3) keep]
    by blast+
  from look have "\<forall>k. map_index h' (Values rv) k =
              (case map_index h (Values second) k of
                 Some v \<Rightarrow> Some v
               | None \<Rightarrow> map_index h (Values first) k)"
    by (rule allI)
  with dom idem keep same show ?thesis by (intro conjI)
qed

theorem mergeValues_right_biased_witness:
  "allocated exampleStore (Some 0) \<and> allocated exampleStore (Some 1)
   \<and> map_index (fst (mergeValues exampleStore \<lparr>Values = Some 0\<rparr> \<lparr>Values = Some 1\<rparr>))
        (Values (snd (mergeValues exampleStore \<lparr>Values = Some 0\<rparr> \<lparr>Values = Some 1\<rparr>))) ''a''
       = Some ''foo''
   \<and> map_index (fst (mergeValues exampleStore \<lparr>Values = Some 0\<rparr> \<lparr>Values = Some 1\<rparr>))
        (Values (snd (mergeValues exampleStore \<lparr>Values = Some 0\<rparr> \<lparr>Values = Some 1\<rparr>))) ''b''
       = Some ''overridden''
   \<and> map_index (fst (mergeValues exampleStore \<lparr>Values = Some 0\<rparr> \<lparr>Values = Some 1\<rparr>))
        (Values (snd (mergeValues exampleStore \<lparr>Values = Some 0\<rparr> \<lparr>Values = Some 1\<rparr>))) ''z''
       = None
   \<and> map_index (fst (mergeValues exampleStore \<lparr>Values = Some 0\<rparr> \<lparr>Values = Some 1\<rparr>))
        (Some 0) ''b'' = Some ''bar''"
proof -
  let ?A = "\<lparr>Values = Some 0\<rparr>" and ?B = "\<lparr>Values = Some 1\<rparr>"
  let ?h' = "fst (mergeValues exampleStore ?A ?B)"
  let ?rv = "snd (mergeValues exampleStore ?A ?B)"
  have a: "allocated exampleStore (Values ?A)" "allocated exampleStore (Values ?B)"
    by (simp_all add: allocated_def exampleStore_def)
  have m: "mergeValues exampleStore ?A ?B = (?h', ?rv)" by simp
  note merged = mergeValues_right_biased [OF m a]
  have A: "map_index exampleStore (Values ?A) ''a'' = Some ''foo''"
          "map_index exampleStore (Values ?A) ''b'' = Some ''bar''"
          "map_index exampleStore (Values ?A) ''z'' = None"
    by (simp_all add: map_index_def exampleStore_def DAList.lookup_update DAList.lookup_empty)
  have B: "map_index exampleStore (Values ?B) ''a'' = None"
          "map_index exampleStore (Values ?B) ''b'' = Some ''overridden''"
          "map_index exampleStore (Values ?B) ''z'' = None"
    by (simp_all add: map_index_def exampleStore_def DAList.lookup_update DAList.lookup_empty)
  from merged have look: "\<And>k. map_index ?h' (Values ?rv) k =
              (case map_index exampleStore (Values ?B) k of
                 Some v \<Rightarrow> Some v
               | None \<Rightarrow> map_index exampleStore (Values ?A) k)"
    by blast
  have 1: "map_index ?h' (Values ?rv) ''a'' = Some ''foo''"
    by (simp only: look A B option.case)
  have 2: "map_index ?h' (Values ?rv) ''b'' = Some ''overridden''"
    by (simp only: look A B option.case)
  have 3: "map_index ?h' (Values ?rv) ''z'' = None"
    by (simp only: look A B option.case)
  from merged have "map_index ?h' (Values ?A) = map_index exampleStore (Values ?A)"
    by blast
  then have 4: "map_index ?h' (Some 0) ''b'' = Some ''bar''"
    using A(2) by simp
  from a 1 2 3 4 show ?thesis by simp
qed

subsection \<open>The context variable\<close>

lemma renderValues_result:
  assumes "mergeValues h (getVariables data ''default'') (getVariables data c) = (h1, rv)"
  shows "renderValues h data c = Inr (map_assign h1 (length h) ''context'' c, rv)"
proof -
  from assms have "Values rv = Some (length h)" by (rule mergeValues_store(1))
  with assms show ?thesis by (simp add: renderValues_def)
qed

lemma renderValues_returns: "\<exists>h' vals. renderValues h data c = Inr (h', vals)"
proof -
  obtain h1 rv where
    "mergeValues h (getVariables data ''default'') (getVariables data c) = (h1, rv)"
    by (cases "mergeValues h (getVariables data ''default'') (getVariables data c)")
  then show ?thesis using renderValues_result by blast
qed

lemma renderValues_sets_context:
  "\<exists>h' vals. renderValues h data c = Inr (h', vals) \<and>
       map_index h' (Values vals) ''context'' = Some c"
proof -
  obtain h1 rv where m: "mergeValues h (getVariables data ''default'')
                            (getVariables data c) = (h1, rv)"
    by (cases "mergeValues h (getVariables data ''default'') (getVariables data c)")
  then have rv: "Values rv = Some (length h)" and len: "length h1 = Suc (length h)"
    by (rule mergeValues_store)+
  from m have "renderValues h data c = Inr (map_assign h1 (length h) ''context'' c, rv)"
    by (rule renderValues_result)
  moreover have "map_index (map_assign h1 (length h) ''context'' c) (Values rv) ''context''
                   = Some c"
    using rv len by (simp add: map_index_def lookup_map_assign)
  ultimately show ?thesis by blast
qed

text \<open>
  Nothing but the rendering loop looks at \<open>Execute\<close>, and the loop calls it with one
  variable mapping only.
\<close>

lemma os_Execute:
  "os_Mkdir (env\<lparr>Execute := x\<rparr>) w path = os_Mkdir env w path"
  "os_MkdirAll (env\<lparr>Execute := x\<rparr>) w path = os_MkdirAll env w path"
  "os_Create (env\<lparr>Execute := x\<rparr>) w path = os_Create env w path"
  by (simp_all add: os_Mkdir_def os_MkdirAll_def os_Create_def)

lemma tryNames_Execute:
  "tryNames (env\<lparr>Execute := x\<rparr>) dir prefix' n w err = tryNames env dir prefix' n w err"
  by (induction n arbitrary: w err)
     (simp_all add: os_Execute Let_def split: prod.splits option.splits)

lemma mktemp_Execute: "mktemp (env\<lparr>Execute := x\<rparr>) w base leaf = mktemp env w base leaf"
  by (simp add: mktemp_def ioutil_TempDir_def tryNames_Execute os_Execute
           split: prod.splits option.splits)

lemma copyTests_Execute:
  "copyTests (env\<lparr>Execute := x\<rparr>) outDir fs w rv = copyTests env outDir fs w rv"
  by (induction fs arbitrary: w rv)
     (simp_all add: os_Execute split: osfile.splits prod.splits option.splits)

lemma renderAll_Execute:
  assumes "\<forall>tpl. x tpl vals = Execute env tpl vals"
  shows "renderAll (env\<lparr>Execute := x\<rparr>) vals outDir ts w rv = renderAll env vals outDir ts w rv"
  using assms
proof (induction ts arbitrary: w rv)
  case Nil
  then show ?case by simp
next
  case (Cons t ts)
  obtain filename tpl where t: "t = (filename, tpl)" by (cases t)
  from Cons.prems have "x tpl vals = Execute env tpl vals" by simp
  with Cons t show ?case
    by (simp add: os_Execute Let_def split: prod.splits option.splits)
qed

lemma expandDirectory_Execute:
  assumes "\<forall>tpl vals. vals ''context'' = Some c \<longrightarrow> x tpl vals = Execute env tpl vals"
  shows "expandDirectory (env\<lparr>Execute := x\<rparr>) s c data = expandDirectory env s c data"
proof -
  obtain h1 vals where v: "renderValues (fst s) data c = Inr (h1, vals)"
    and ctx: "map_index h1 (Values vals) ''context'' = Some c"
    using renderValues_sets_context by blast
  from assms ctx have "\<forall>tpl. x tpl (map_index h1 (Values vals))
                          = Execute env tpl (map_index h1 (Values vals))"
    by simp
  then have "\<And>outDir ts w rv.
      renderAll (env\<lparr>Execute := x\<rparr>) (map_index h1 (Values vals)) outDir ts w rv =
      renderAll env (map_index h1 (Values vals)) outDir ts w rv"
    by (rule renderAll_Execute)
  with v show ?thesis
    by (simp add: expandDirectory_def mktemp_Execute copyTests_Execute os_Execute Let_def
             split: prod.splits option.splits sum.splits)
qed

text \<open>
  C3. Whatever the store and the layers hold, also when the default layer or the layer of
  the context defines the key \<open>context\<close> itself, composing the variables of a context
  does not panic and the variables the templates are rendered with map \<open>context\<close> to the
  identifier of the context. The expansion of a context renders with no other mapping:
  changing what rendering does on mappings that give \<open>context\<close> another value, or none,
  does not change the expansion.
\<close>

theorem renderValues_context:
  "(\<exists>h' values. renderValues h data c = Inr (h', values) \<and>
       map_index h' (Values values) ''context'' = Some c)
   \<and> ((\<forall>tpl vals. vals ''context'' = Some c \<longrightarrow> x tpl vals = Execute env tpl vals)
        \<longrightarrow> expandDirectory (env\<lparr>Execute := x\<rparr>) s c data = expandDirectory env s c data)"
proof (intro conjI impI)
  show "\<exists>h' values. renderValues h data c = Inr (h', values) \<and>
       map_index h' (Values values) ''context'' = Some c"
    by (rule renderValues_sets_context)
next
  assume "\<forall>tpl vals. vals ''context'' = Some c \<longrightarrow> x tpl vals = Execute env tpl vals"
  then show "expandDirectory (env\<lparr>Execute := x\<rparr>) s c data = expandDirectory env s c data"
    by (rule expandDirectory_Execute)
qed

theorem renderValues_context_witness:
  "map_index exampleStore (Values (getVariables exampleLayers ''prod'')) ''context''
     = Some ''spoofed''
   \<and> (\<exists>h' values. renderValues exampleStore exampleLayers ''prod'' = Inr (h', values) \<and>
         map_index h' (Values values) ''context'' = Some ''prod'')
   \<and> expandDirectory (exampleEnv\<lparr>Execute := strictExecute ''prod''\<rparr>)
         (exampleStore, emptyWorld) ''prod'' exampleLayers =
       expandDirectory exampleEnv (exampleStore, emptyWorld) ''prod'' exampleLayers"
proof -
  have spoof: "map_index exampleStore (Values (getVariables exampleLayers ''prod'')) ''context''
     = Some ''spoofed''"
    by (simp add: getVariables_def exampleLayers_def exampleStore_def map_index_def
          DAList.lookup_update DAList.lookup_empty)
  have same: "\<forall>tpl vals. vals ''context'' = Some ''prod'' \<longrightarrow>
                strictExecute ''prod'' tpl vals = Execute exampleEnv tpl vals"
    by (simp add: strictExecute_def exampleEnv_def)
  from spoof same
    renderValues_context [where h = exampleStore and data = exampleLayers
                            and c = "''prod''" and x = "strictExecute ''prod''"
                            and env = exampleEnv and s = "(exampleStore, emptyWorld)"]
  show ?thesis by simp
qed

subsection \<open>The name of a variable layer\<close>

text \<open>
  Where \<open>.vars\<close> occurs in the base name only as its suffix, the first occurrence is the
  suffix and the layer name is the base name without it.
\<close>

lemma strings_Index_suffix:
  assumes "\<forall>i < length stem. \<not> prefix sub (drop i (stem @ sub))"
  shows "strings_Index (stem @ sub) sub = int (length stem)"
  using assms
proof (induction stem)
  case Nil
  then show ?case by (cases sub) simp_all
next
  case (Cons a stem)
  from Cons.prems have here: "\<not> prefix sub (a # stem @ sub)" by fastforce
  have "\<forall>i < length stem. \<not> prefix sub (drop i (stem @ sub))"
  proof (intro allI impI)
    fix i
    assume "i < length stem"
    then have "Suc i < length (a # stem)" by simp
    with Cons.prems have "\<not> prefix sub (drop (Suc i) ((a # stem) @ sub))" by blast
    then show "\<not> prefix sub (drop i (stem @ sub))" by simp
  qed
  then have "strings_Index (stem @ sub) sub = int (length stem)" by (rule Cons.IH)
  with here show ?case by (simp add: Let_def)
qed

lemma parseValues_strips_only_suffix:
  assumes "filepath_Base name = stem @ ''.vars''"
      and "\<forall>i < length stem. \<not> prefix ''.vars'' (drop i (stem @ ''.vars''))"
  shows "fst (snd (parseValues unmarshal h name data)) = stem"
proof -
  from assms(2) have "strings_Index (stem @ ''.vars'') ''.vars'' = int (length stem)"
    by (rule strings_Index_suffix)
  with assms(1) show ?thesis
    by (simp add: parseValues_def Let_def split: prod.splits option.splits)
qed

text \<open>
  C9. The layer of a variable file is to be named by its base name without the trailing
  \<open>.vars\<close>. \<open>parseValues\<close> cuts the base name at the first \<open>.vars\<close> instead: the
  file \<open>prod.vars.old.vars\<close>, whose base name ends in \<open>.vars\<close>, becomes the layer
  \<open>prod\<close>, while stripping the suffix gives \<open>prod.vars.old\<close>. The specification's
  example, \<open>context1.vars\<close>, becomes \<open>context1\<close>.
\<close>

theorem parseValues_cuts_at_first_vars:
  "fst (snd (parseValues unmarshal h ''/src/prod.vars.old.vars'' data)) = ''prod''
   \<and> suffix ''.vars'' (filepath_Base ''/src/prod.vars.old.vars'')
   \<and> ''prod'' @ ''.vars'' \<noteq> filepath_Base ''/src/prod.vars.old.vars''
   \<and> fst (snd (parseValues unmarshal h ''/src/context1.vars'' data)) = ''context1''"
  by (simp add: parseValues_def filepath_Base_def lastElement_def stripTrailingSlashes_def
        suffix_def Let_def split: prod.splits option.splits)

subsection \<open>Output directories\<close>

lemma os_Mkdir_grows:
  "os_Mkdir env w path = (w', e) \<Longrightarrow> set (present w) \<subseteq> set (present w')"
  by (auto simp: os_Mkdir_def split: if_splits)

lemma os_Mkdir_new:
  "os_Mkdir env w path = (w', None) \<Longrightarrow> path \<notin> set (present w) \<and> path \<in> set (present w')"
  by (auto simp: os_Mkdir_def split: if_splits)

lemma os_MkdirAll_grows:
  "os_MkdirAll env w path = (w', e) \<Longrightarrow> set (present w) \<subseteq> set (present w')"
  by (auto simp: os_MkdirAll_def split: if_splits)

lemma os_Create_grows:
  "os_Create env w path = (w', e) \<Longrightarrow> set (present w) \<subseteq> set (present w')"
  by (auto simp: os_Create_def split: if_splits)

text \<open>
  The loop of \<open>ioutil.TempDir\<close>: a name it returns without error was not there before
  and is there afterwards; no path is lost on the way.
\<close>

lemma tryNames_grows:
  "tryNames env dir prefix' n w err = (w', name, e) \<Longrightarrow> set (present w) \<subseteq> set (present w')"
proof (induction n arbitrary: w err)
  case 0
  then show ?case by simp
next
  case (Suc n)
  let ?path = "Join env [dir, prefix' @ nextRandom env (randoms w)]"
  let ?w = "w\<lparr>randoms := Suc (randoms w)\<rparr>"
  obtain w1 e1 where m: "os_Mkdir env ?w ?path = (w1, e1)"
    by (cases "os_Mkdir env ?w ?path")
  then have g: "set (present w) \<subseteq> set (present w1)"
    using os_Mkdir_grows [OF m] by simp
  show ?case
  proof (cases e1)
    case None
    with Suc.prems m g show ?thesis by (simp add: Let_def)
  next
    case (Some x)
    show ?thesis
    proof (cases "IsExist x")
      case True
      with Suc.prems m Some have "tryNames env dir prefix' n w1 (Some x) = (w', name, e)"
        by (simp add: Let_def)
      then have "set (present w1) \<subseteq> set (present w')" by (rule Suc.IH)
      with g show ?thesis by blast
    next
      case False
      with Suc.prems m Some g show ?thesis by (simp add: Let_def)
    qed
  qed
qed

lemma tryNames_new:
  assumes "tryNames env dir prefix' n w err = (w', name, None)"
      and "err \<noteq> None \<or> 0 < n"
  shows "name \<notin> set (present w) \<and> name \<in> set (present w')"
  using assms
proof (induction n arbitrary: w err)
  case 0
  then show ?case by simp
next
  case (Suc n)
  let ?path = "Join env [dir, prefix' @ nextRandom env (randoms w)]"
  let ?w = "w\<lparr>randoms := Suc (randoms w)\<rparr>"
  obtain w1 e1 where m: "os_Mkdir env ?w ?path = (w1, e1)"
    by (cases "os_Mkdir env ?w ?path")
  then have g: "set (present w) \<subseteq> set (present w1)"
    using os_Mkdir_grows [OF m] by simp
  show ?case
  proof (cases e1)
    case None
    with Suc.prems(1) m have "w' = w1" and "name = ?path" by (simp_all add: Let_def)
    with m None show ?thesis using os_Mkdir_new [of env ?w ?path w1] by simp
  next
    case (Some x)
    show ?thesis
    proof (cases "IsExist x")
      case True
      with Suc.prems(1) m Some
      have rest: "tryNames env dir prefix' n w1 (Some x) = (w', name, None)"
        by (simp add: Let_def)
      then have "name \<notin> set (present w1) \<and> name \<in> set (present w')"
        by (rule Suc.IH) simp
      with g show ?thesis by blast
    next
      case False
      with Suc.prems(1) m Some show ?thesis by (simp add: Let_def)
    qed
  qed
qed

lemma ioutil_TempDir_new:
  assumes "ioutil_TempDir env w dir prefix' = (w', name, None)"
  shows "name \<notin> set (present w) \<and> name \<in> set (present w')"
  using assms unfolding ioutil_TempDir_def by (rule tryNames_new) simp

lemma mktemp_new:
  assumes "mktemp env w base leaf = (w', outDir, None)"
  shows "outDir \<notin> set (present w) \<and> outDir \<in> set (present w')"
proof (cases "base \<notin> set (present w)")
  case True
  obtain w1 e1 where a: "os_MkdirAll env w base = (w1, e1)"
    by (cases "os_MkdirAll env w base")
  with assms True have t: "ioutil_TempDir env w1 base leaf = (w', outDir, None)"
    by (cases e1) (simp_all add: mktemp_def)
  from a have "set (present w) \<subseteq> set (present w1)" by (rule os_MkdirAll_grows)
  with ioutil_TempDir_new [OF t] show ?thesis by blast
next
  case False
  with assms have "ioutil_TempDir env w base leaf = (w', outDir, None)"
    by (simp add: mktemp_def)
  then show ?thesis by (rule ioutil_TempDir_new)
qed

lemma mktemp_grows:
  assumes "mktemp env w base leaf = (w', outDir, e)"
  shows "set (present w) \<subseteq> set (present w')"
proof (cases "base \<notin> set (present w)")
  case True
  obtain w1 e1 where a: "os_MkdirAll env w base = (w1, e1)"
    by (cases "os_MkdirAll env w base")
  then have g: "set (present w) \<subseteq> set (present w1)" by (rule os_MkdirAll_grows)
  show ?thesis
  proof (cases e1)
    case (Some x)
    with assms True a g show ?thesis by (simp add: mktemp_def)
  next
    case None
    with assms True a have "tryNames env (if base = [] then os_TempDir env else base) leaf
                              10000 w1 None = (w', outDir, e)"
      by (simp add: mktemp_def ioutil_TempDir_def)
    then have "set (present w1) \<subseteq> set (present w')" by (rule tryNames_grows)
    with g show ?thesis by blast
  qed
next
  case False
  with assms have "tryNames env (if base = [] then os_TempDir env else base) leaf
                     10000 w None = (w', outDir, e)"
    by (simp add: mktemp_def ioutil_TempDir_def)
  then show ?thesis by (rule tryNames_grows)
qed

lemma renderAll_grows:
  "renderAll env vals outDir ts w rv = (w', rv', e) \<Longrightarrow>
     set (present w) \<subseteq> set (present w') \<and> Directory rv' = Directory rv \<and> Context rv' = Context rv"
proof (induction ts arbitrary: w rv)
  case Nil
  then show ?case by simp
next
  case (Cons t ts)
  obtain filename tpl where t: "t = (filename, tpl)" by (cases t)
  obtain w1 e1 where c: "os_Create env w (Join env [outDir, filename]) = (w1, e1)"
    by (cases "os_Create env w (Join env [outDir, filename])")
  then have g: "set (present w) \<subseteq> set (present w1)" by (rule os_Create_grows)
  show ?case
  proof (cases e1)
    case (Some x)
    with Cons.prems t c g show ?thesis by simp
  next
    case None
    show ?thesis
    proof (cases "Execute env tpl vals")
      case (Some x)
      with Cons.prems t c g None show ?thesis by (auto simp: Let_def)
    next
      case nofail: None
      with Cons.prems t c None
      have "renderAll env vals outDir ts w1 (rv\<lparr>Files := Files rv @ [filename]\<rparr>) = (w', rv', e)"
        by (simp add: Let_def)
      from Cons.IH [OF this] g show ?thesis by auto
    qed
  qed
qed

lemma copyTests_grows:
  "copyTests env outDir fs w rv = (w', rv', e) \<Longrightarrow>
     set (present w) \<subseteq> set (present w') \<and> Directory rv' = Directory rv \<and> Context rv' = Context rv"
proof (induction fs arbitrary: w rv)
  case Nil
  then show ?case by simp
next
  case (Cons f fs)
  let ?sink = "Join env [outDir, ''tests'', filepath_Base f]"
  obtain w1 e1 where c: "os_Create env w ?sink = (w1, e1)"
    by (cases "os_Create env w ?sink")
  then have g: "set (present w) \<subseteq> set (present w1)" by (rule os_Create_grows)
  show ?case
  proof (cases "\<exists>err. os_Open (sourceFiles env) f = OpenFails err")
    case True
    with Cons.prems show ?thesis by auto
  next
    case False
    show ?thesis
    proof (cases e1)
      case (Some x)
      with Cons.prems c g False show ?thesis
        by (cases "os_Open (sourceFiles env) f") simp_all
    next
      case None
      with Cons.prems c False
      have "copyTests env outDir fs w1
              (rv\<lparr>Files := Files rv @ [Join env [''tests'', filepath_Base f]]\<rparr>) = (w', rv', e)"
        by (cases "os_Open (sourceFiles env) f") simp_all
      from Cons.IH [OF this] g show ?thesis by auto
    qed
  qed
qed

text \<open>
  One expansion: the directory of a successful expansion did not exist when the expansion
  started and exists when it ends, and the expansion removes no path.
\<close>

lemma expandDirectory_new:
  assumes "expandDirectory env (h, w) context data = Inr ((h', w'), t, None)"
  shows "Directory t \<notin> set (present w) \<and> Directory t \<in> set (present w')
       \<and> set (present w) \<subseteq> set (present w') \<and> Context t = context"
proof -
  obtain h1 vals where v: "renderValues h data context = Inr (h1, vals)"
    using renderValues_returns by blast
  let ?rv0 = "\<lparr>Context = '''', Directory = '''', Files = []\<rparr>"
  obtain w1 outDir e1 where
    m: "mktemp env w (DefaultTempDirectory env) (''tmp-'' @ context @ ''-'') = (w1, outDir, e1)"
    by (cases "mktemp env w (DefaultTempDirectory env) (''tmp-'' @ context @ ''-'')") auto
  from assms v m have e1: "e1 = None"
    by (cases e1) (simp_all add: expandDirectory_def)
  with m have new: "outDir \<notin> set (present w) \<and> outDir \<in> set (present w1)"
    using mktemp_new by blast
  from m have g1: "set (present w) \<subseteq> set (present w1)" by (rule mktemp_grows)
  let ?rv1 = "?rv0\<lparr>Directory := outDir, Context := context\<rparr>"
  obtain w2 rv2 e2 where
    r: "renderAll env (map_index h1 (Values vals)) outDir (DAList.impl_of (templates data)) w1 ?rv1
          = (w2, rv2, e2)"
    by (cases "renderAll env (map_index h1 (Values vals)) outDir
                 (DAList.impl_of (templates data)) w1 ?rv1") auto
  from renderAll_grows [OF r] have g2: "set (present w1) \<subseteq> set (present w2)"
    and d2: "Directory rv2 = outDir" and c2: "Context rv2 = context" by simp_all
  from assms v m e1 r have e2: "e2 = None"
    by (cases e2) (simp_all add: expandDirectory_def Let_def)
  obtain w3 e3 where k: "os_Mkdir env w2 (Join env [outDir, ''tests'']) = (w3, e3)"
    by (cases "os_Mkdir env w2 (Join env [outDir, ''tests''])")
  then have g3: "set (present w2) \<subseteq> set (present w3)" by (rule os_Mkdir_grows)
  obtain testFiles where
    gl: "Glob env (Join env [sourceDir data, ''tests'', ''*.yaml'']) = Inr testFiles"
    using assms v m e1 r e2 k
    by (cases "Glob env (Join env [sourceDir data, ''tests'', ''*.yaml''])")
       (simp_all add: expandDirectory_def Let_def)
  obtain w4 rv4 e4 where c: "copyTests env outDir testFiles w3 rv2 = (w4, rv4, e4)"
    by (cases "copyTests env outDir testFiles w3 rv2") auto
  from copyTests_grows [OF c] have g4: "set (present w3) \<subseteq> set (present w4)"
    and d4: "Directory rv4 = Directory rv2" and c4: "Context rv4 = Context rv2" by simp_all
  from assms v m e1 r e2 k gl c have "w' = w4" and "t = rv4"
    by (simp_all add: expandDirectory_def Let_def)
  with new g1 g2 g3 g4 d2 d4 c2 c4 show ?thesis by auto
qed

lemma expandDirectory_grows:
  assumes "expandDirectory env (h, w) c data = Inr ((h', w'), t, e)"
  shows "set (present w) \<subseteq> set (present w')"
proof -
  obtain h1 vals where v: "renderValues h data c = Inr (h1, vals)"
    using renderValues_returns by blast
  let ?rv0 = "\<lparr>Context = '''', Directory = '''', Files = []\<rparr>"
  obtain w1 outDir e1 where
    m: "mktemp env w (DefaultTempDirectory env) (''tmp-'' @ c @ ''-'') = (w1, outDir, e1)"
    by (cases "mktemp env w (DefaultTempDirectory env) (''tmp-'' @ c @ ''-'')") auto
  then have g1: "set (present w) \<subseteq> set (present w1)" by (rule mktemp_grows)
  show ?thesis
  proof (cases e1)
    case (Some x)
    with assms v m have "w' = w1" by (simp add: expandDirectory_def)
    with g1 show ?thesis by simp
  next
    case None
    let ?rv1 = "?rv0\<lparr>Directory := outDir, Context := c\<rparr>"
    obtain w2 rv2 e2 where
      r: "renderAll env (map_index h1 (Values vals)) outDir (DAList.impl_of (templates data))
            w1 ?rv1 = (w2, rv2, e2)"
      by (cases "renderAll env (map_index h1 (Values vals)) outDir
                   (DAList.impl_of (templates data)) w1 ?rv1") auto
    from renderAll_grows [OF r] have g2: "set (present w1) \<subseteq> set (present w2)" by simp
    show ?thesis
    proof (cases e2)
      case (Some x)
      with assms v m None r have "w' = w2" by (simp add: expandDirectory_def Let_def)
      with g1 g2 show ?thesis by blast
    next
      case none2: None
      obtain w3 e3 where k: "os_Mkdir env w2 (Join env [outDir, ''tests'']) = (w3, e3)"
        by (cases "os_Mkdir env w2 (Join env [outDir, ''tests''])")
      then have g3: "set (present w2) \<subseteq> set (present w3)" by (rule os_Mkdir_grows)
      show ?thesis
      proof (cases "Glob env (Join env [sourceDir data, ''tests'', ''*.yaml''])")
        case (Inl x)
        with assms v m None r none2 k have "w' = w3"
          by (simp add: expandDirectory_def Let_def)
        with g1 g2 g3 show ?thesis by blast
      next
        case (Inr testFiles)
        obtain w4 rv4 e4 where cp: "copyTests env outDir testFiles w3 rv2 = (w4, rv4, e4)"
          by (cases "copyTests env outDir testFiles w3 rv2") auto
        from copyTests_grows [OF cp] have g4: "set (present w3) \<subseteq> set (present w4)" by simp
        from assms v m None r none2 k Inr cp have "w' = w4"
          by (simp add: expandDirectory_def Let_def)
        with g1 g2 g3 g4 show ?thesis by blast
      qed
    qed
  qed
qed

text \<open>
  The loop over the contexts keeps two facts about the collected results: every recorded
  directory exists, and two different contexts never hold the same directory.
\<close>

lemma lookup_update_cases:
  "DAList.lookup (DAList.update c t rv) c' = Some t' \<Longrightarrow>
     (c' = c \<and> t' = t) \<or> (c' \<noteq> c \<and> DAList.lookup rv c' = Some t')"
  by (simp add: DAList.lookup_update split: if_splits)

lemma expandAll_directories:
  assumes "expandAll env ts contexts (h, w) rv = Inr ((h', w'), Some rv', None)"
      and "directoriesPresent rv w"
      and "directoriesDistinct rv"
  shows "directoriesPresent rv' w' \<and> directoriesDistinct rv'"
  using assms
proof (induction contexts arbitrary: h w rv)
  case Nil
  then show ?case by simp
next
  case (Cons c contexts)
  from Cons.prems(1) obtain h1 w1 t where
    one: "expandDirectory env (h, w) c ts = Inr ((h1, w1), t, None)" and
    rest: "expandAll env ts contexts (h1, w1) (DAList.update c t rv) = Inr ((h', w'), Some rv', None)"
    by (auto split: sum.splits option.splits)
  from expandDirectory_new [OF one] have
    new: "Directory t \<notin> set (present w)" and there: "Directory t \<in> set (present w1)"
    and grows: "set (present w) \<subseteq> set (present w1)"
    by simp_all
  have p: "directoriesPresent (DAList.update c t rv) w1"
    unfolding directoriesPresent_def
  proof (intro allI impI)
    fix c' t'
    assume "DAList.lookup (DAList.update c t rv) c' = Some t'"
    then have "(c' = c \<and> t' = t) \<or> (c' \<noteq> c \<and> DAList.lookup rv c' = Some t')"
      by (rule lookup_update_cases)
    then consider "t' = t" | "DAList.lookup rv c' = Some t'"
      by auto
    then show "Directory t' \<in> set (present w1)"
    proof cases
      case 1
      with there show ?thesis by simp
    next
      case 2
      with Cons.prems(2) grows show ?thesis by (auto simp: directoriesPresent_def)
    qed
  qed
  have old: "Directory t' \<noteq> Directory t" if "DAList.lookup rv c' = Some t'" for c' t'
  proof -
    from that Cons.prems(2) have "Directory t' \<in> set (present w)"
      unfolding directoriesPresent_def by blast
    with new show ?thesis by metis
  qed
  have d: "directoriesDistinct (DAList.update c t rv)"
    unfolding directoriesDistinct_def
  proof (intro allI impI)
    fix c1 c2 t1 t2
    assume a: "c1 \<noteq> c2 \<and> DAList.lookup (DAList.update c t rv) c1 = Some t1 \<and>
               DAList.lookup (DAList.update c t rv) c2 = Some t2"
    then have 1: "(c1 = c \<and> t1 = t) \<or> (c1 \<noteq> c \<and> DAList.lookup rv c1 = Some t1)"
      and 2: "(c2 = c \<and> t2 = t) \<or> (c2 \<noteq> c \<and> DAList.lookup rv c2 = Some t2)"
      by (simp_all add: lookup_update_cases)
    from a have ne: "c1 \<noteq> c2" by simp
    from 1 2 ne consider
        "t1 = t" "DAList.lookup rv c2 = Some t2"
      | "t2 = t" "DAList.lookup rv c1 = Some t1"
      | "DAList.lookup rv c1 = Some t1" "DAList.lookup rv c2 = Some t2"
      by auto
    then show "Directory t1 \<noteq> Directory t2"
    proof cases
      case 1
      with old [of c2 t2] show ?thesis by simp
    next
      case 2
      with old [of c1 t1] show ?thesis by simp
    next
      case 3
      with ne Cons.prems(3) show ?thesis by (auto simp: directoriesDistinct_def)
    qed
  qed
  from rest p d show ?case by (rule Cons.IH)
qed


lemma ExpandDirectory_directories:
  assumes "ExpandDirectory env s contexts sourceDirectory = Inr (s', Some rv, None)"
  shows "directoriesDistinct rv \<and> directoriesPresent rv (snd s')"
proof -
  obtain h ts e where c: "createInternalTemplate env (fst s) sourceDirectory = (h, ts, e)"
    by (cases "createInternalTemplate env (fst s) sourceDirectory") auto
  with assms have e: "e = None" by (cases e) (simp_all add: ExpandDirectory_def)
  obtain h' w' where s': "s' = (h', w')" by (cases s')
  from assms c e s' have
    "expandAll env ts contexts (h, snd s) DAList.empty = Inr ((h', w'), Some rv, None)"
    by (simp add: ExpandDirectory_def)
  moreover have "directoriesPresent DAList.empty (snd s)"
    by (simp add: directoriesPresent_def DAList.lookup_empty)
  moreover have "directoriesDistinct DAList.empty"
    by (simp add: directoriesDistinct_def DAList.lookup_empty)
  ultimately have "directoriesPresent rv w' \<and> directoriesDistinct rv"
    by (rule expandAll_directories)
  with s' show ?thesis by simp
qed

text \<open>
  C7. Two successful expansions, of the same context or of different ones, get different
  output directories whenever the paths that exist after the first still exist when the
  second starts. No expansion, successful or not, removes a path, so this is the case for
  any two expansions of a sequence, as in the loop of \<open>ExpandDirectory\<close>. In the result
  of a successful run the directories recorded for two different contexts differ, and all of
  them exist.
\<close>

theorem expansions_get_distinct_directories:
  "(expandDirectory env s1 c1 d1 = Inr (s1', t1, None) \<and>
    set (present (snd s1')) \<subseteq> set (present (snd s2)) \<and>
    expandDirectory env' s2 c2 d2 = Inr (s2', t2, None)
      \<longrightarrow> Directory t1 \<noteq> Directory t2)
   \<and> (expandDirectory env s0 c0 d0 = Inr (s0', t0, e0)
      \<longrightarrow> set (present (snd s0)) \<subseteq> set (present (snd s0')))
   \<and> (ExpandDirectory env s contexts sourceDirectory = Inr (s', Some rv, None)
      \<longrightarrow> directoriesDistinct rv \<and> directoriesPresent rv (snd s'))"
proof (intro conjI impI)
  assume a: "expandDirectory env s1 c1 d1 = Inr (s1', t1, None) \<and>
    set (present (snd s1')) \<subseteq> set (present (snd s2)) \<and>
    expandDirectory env' s2 c2 d2 = Inr (s2', t2, None)"
  then have "expandDirectory env (fst s1, snd s1) c1 d1 = Inr ((fst s1', snd s1'), t1, None)"
    by simp
  then have first: "Directory t1 \<in> set (present (snd s1'))"
    using expandDirectory_new by blast
  from a have "expandDirectory env' (fst s2, snd s2) c2 d2 = Inr ((fst s2', snd s2'), t2, None)"
    by simp
  then have second: "Directory t2 \<notin> set (present (snd s2))"
    using expandDirectory_new by blast
  from a first have "Directory t1 \<in> set (present (snd s2))" by blast
  with second show "Directory t1 \<noteq> Directory t2" by metis
next
  assume "expandDirectory env s0 c0 d0 = Inr (s0', t0, e0)"
  then have "expandDirectory env (fst s0, snd s0) c0 d0 = Inr ((fst s0', snd s0'), t0, e0)"
    by simp
  then show "set (present (snd s0)) \<subseteq> set (present (snd s0'))"
    by (rule expandDirectory_grows)
next
  assume "ExpandDirectory env s contexts sourceDirectory = Inr (s', Some rv, None)"
  then show "directoriesDistinct rv" and "directoriesPresent rv (snd s')"
    using ExpandDirectory_directories by blast+
qed

lemma example_first_expansion:
  "\<not> isl (expandDirectory exampleEnv (exampleStore, emptyWorld) ''prod'' exampleLayers)"
  "snd (projr (expandDirectory exampleEnv (exampleStore, emptyWorld) ''prod'' exampleLayers)) =
     (\<lparr>Context = ''prod'', Directory = ''/tmp/prometheus-config-loader/tmp-prod-111'',
       Files = [''tests/a_test.yaml'']\<rparr>, None)"
  by code_simp+

lemma example_second_expansion:
  "\<not> isl (expandDirectory exampleEnv
            (fst (projr (expandDirectory exampleEnv (exampleStore, emptyWorld) ''prod'' exampleLayers)))
            ''prod'' exampleLayers)"
  "snd (projr (expandDirectory exampleEnv
            (fst (projr (expandDirectory exampleEnv (exampleStore, emptyWorld) ''prod'' exampleLayers)))
            ''prod'' exampleLayers)) =
     (\<lparr>Context = ''prod'', Directory = ''/tmp/prometheus-config-loader/tmp-prod-222'',
       Files = [''tests/a_test.yaml'']\<rparr>, None)"
  by code_simp+

lemma example_run:
  "\<not> isl (ExpandDirectory exampleEnv ([], emptyWorld) [''unittest'', ''prod''] ''/src'')"
  "snd (snd (projr (ExpandDirectory exampleEnv ([], emptyWorld) [''unittest'', ''prod''] ''/src'')))
     = None"
  "map_option (\<lambda>rv. (DAList.lookup rv ''unittest'', DAList.lookup rv ''prod''))
     (fst (snd (projr (ExpandDirectory exampleEnv ([], emptyWorld)
                         [''unittest'', ''prod''] ''/src'')))) =
     Some (Some \<lparr>Context = ''unittest'',
                  Directory = ''/tmp/prometheus-config-loader/tmp-unittest-111'',
                  Files = [''a.yaml'', ''b.yaml'', ''tests/a_test.yaml'']\<rparr>,
           Some \<lparr>Context = ''prod'',
                  Directory = ''/tmp/prometheus-config-loader/tmp-prod-111'',
                  Files = [''a.yaml'', ''b.yaml'', ''tests/a_test.yaml'']\<rparr>)"
  by code_simp+

lemma sum_result:
  "\<not> isl r \<Longrightarrow> snd (projr r) = (t, e) \<Longrightarrow> r = Inr (fst (projr r), t, e)"
  by (cases r) auto

theorem expansions_get_distinct_directories_witness:
  "(\<exists>s1 s2.
      expandDirectory exampleEnv (exampleStore, emptyWorld) ''prod'' exampleLayers =
        Inr (s1, \<lparr>Context = ''prod'',
                  Directory = ''/tmp/prometheus-config-loader/tmp-prod-111'',
                  Files = [''tests/a_test.yaml'']\<rparr>, None) \<and>
      expandDirectory exampleEnv s1 ''prod'' exampleLayers =
        Inr (s2, \<lparr>Context = ''prod'',
                  Directory = ''/tmp/prometheus-config-loader/tmp-prod-222'',
                  Files = [''tests/a_test.yaml'']\<rparr>, None))
   \<and> ''/tmp/prometheus-config-loader/tmp-prod-111'' \<noteq>
       ''/tmp/prometheus-config-loader/tmp-prod-222''
   \<and> (\<exists>s rv.
        ExpandDirectory exampleEnv ([], emptyWorld) [''unittest'', ''prod''] ''/src'' =
          Inr (s, Some rv, None) \<and>
        DAList.lookup rv ''unittest'' =
          Some \<lparr>Context = ''unittest'',
                 Directory = ''/tmp/prometheus-config-loader/tmp-unittest-111'',
                 Files = [''a.yaml'', ''b.yaml'', ''tests/a_test.yaml'']\<rparr> \<and>
        DAList.lookup rv ''prod'' =
          Some \<lparr>Context = ''prod'',
                 Directory = ''/tmp/prometheus-config-loader/tmp-prod-111'',
                 Files = [''a.yaml'', ''b.yaml'', ''tests/a_test.yaml'']\<rparr> \<and>
        directoriesDistinct rv \<and> directoriesPresent rv (snd s))"
proof -
  let ?T1 = "\<lparr>Context = ''prod'', Directory = ''/tmp/prometheus-config-loader/tmp-prod-111'',
              Files = [''tests/a_test.yaml'']\<rparr>"
  let ?T2 = "\<lparr>Context = ''prod'', Directory = ''/tmp/prometheus-config-loader/tmp-prod-222'',
              Files = [''tests/a_test.yaml'']\<rparr>"
  let ?r1 = "expandDirectory exampleEnv (exampleStore, emptyWorld) ''prod'' exampleLayers"
  let ?s1 = "fst (projr ?r1)"
  let ?r2 = "expandDirectory exampleEnv ?s1 ''prod'' exampleLayers"
  let ?s2 = "fst (projr ?r2)"
  have e1: "?r1 = Inr (?s1, ?T1, None)"
    using example_first_expansion by (rule sum_result)
  have e2: "?r2 = Inr (?s2, ?T2, None)"
    using example_second_expansion by (rule sum_result)
  let ?R = "ExpandDirectory exampleEnv ([], emptyWorld) [''unittest'', ''prod''] ''/src''"
  obtain s rvo e where R: "?R = Inr (s, rvo, e)"
    using example_run(1) by (cases ?R) auto
  with example_run(2) have e: "e = None" by simp
  from R example_run(3) obtain rv where rvo: "rvo = Some rv"
    and U: "DAList.lookup rv ''unittest'' =
          Some \<lparr>Context = ''unittest'',
                 Directory = ''/tmp/prometheus-config-loader/tmp-unittest-111'',
                 Files = [''a.yaml'', ''b.yaml'', ''tests/a_test.yaml'']\<rparr>"
    and P: "DAList.lookup rv ''prod'' =
          Some \<lparr>Context = ''prod'',
                 Directory = ''/tmp/prometheus-config-loader/tmp-prod-111'',
                 Files = [''a.yaml'', ''b.yaml'', ''tests/a_test.yaml'']\<rparr>"
    by (cases rvo) auto
  note inst = expansions_get_distinct_directories
               [where env = exampleEnv and env' = exampleEnv
                  and ?s1.0 = "(exampleStore, emptyWorld)" and ?c1.0 = "''prod''"
                  and ?d1.0 = exampleLayers and s1' = ?s1 and ?t1.0 = ?T1
                  and ?s2.0 = ?s1 and ?c2.0 = "''prod''" and ?d2.0 = exampleLayers
                  and s2' = ?s2 and ?t2.0 = ?T2
                  and ?s0.0 = "(exampleStore, emptyWorld)" and ?c0.0 = "''prod''"
                  and ?d0.0 = exampleLayers and s0' = ?s1 and ?t0.0 = ?T1 and ?e0.0 = None
                  and s = "([], emptyWorld)" and contexts = "[''unittest'', ''prod'']"
                  and sourceDirectory = "''/src''" and s' = s and rv = rv]
  from inst R rvo e have run: "directoriesDistinct rv \<and> directoriesPresent rv (snd s)"
    by simp
  from inst e1 e2 have "Directory ?T1 \<noteq> Directory ?T2"
    by simp
  then have ne: "''/tmp/prometheus-config-loader/tmp-prod-111'' \<noteq>
       ''/tmp/prometheus-config-loader/tmp-prod-222''"
    by simp
  from e1 e2 have two: "\<exists>s1 s2. ?r1 = Inr (s1, ?T1, None) \<and>
      expandDirectory exampleEnv s1 ''prod'' exampleLayers = Inr (s2, ?T2, None)"
    by blast
  from run R rvo e U P have "\<exists>s rv. ?R = Inr (s, Some rv, None) \<and>
        DAList.lookup rv ''unittest'' =
          Some \<lparr>Context = ''unittest'',
                 Directory = ''/tmp/prometheus-config-loader/tmp-unittest-111'',
                 Files = [''a.yaml'', ''b.yaml'', ''tests/a_test.yaml'']\<rparr> \<and>
        DAList.lookup rv ''prod'' =
          Some \<lparr>Context = ''prod'',
                 Directory = ''/tmp/prometheus-config-loader/tmp-prod-111'',
                 Files = [''a.yaml'', ''b.yaml'', ''tests/a_test.yaml'']\<rparr> \<and>
        directoriesDistinct rv \<and> directoriesPresent rv (snd s)"
    by blast
  with two ne show ?thesis by (intro conjI)
qed

subsection \<open>Building the template set\<close>









end
